theory Spec2Isabelle
  imports
    Complex_Main
    "HOL-Library.AList"
    "HOL-Library.Sublist"
    "HOL-Library.Char_ord"
    "HOL-Library.List_Lexorder"
    "HOL-Library.Option_ord"
begin

section \<open>The keyword-driven repository harvester (github\_cae.py)\<close>

text \<open>
  The harvester keeps five SQLite tables (keywords, keyword\_candidates, queries, repos,
  repo\_hits), draws search queries at random from the keyword table, runs every query
  once against the search endpoint, merges the returned repositories by full name and
  mines their text for new keyword candidates.

  Conventions of the embedding.
  \<^item> Python \<open>str\<close> is \<open>string\<close>; the text functions (\<open>strip\<close>, \<open>lower\<close>, the token
    regular expression) are modelled on ASCII, where a character is a byte.
  \<^item> Python \<open>int\<close> is \<open>int\<close>; Python \<open>float\<close> (keyword weights, candidate scores, the
    value of \<open>rng.random()\<close>) is idealised as \<open>real\<close>: rounding is not modelled.
  \<^item> A Python \<open>dict\<close> is an association list in insertion order; \<open>map_of\<close> is the
    look-up, and two dicts are equal in Python's sense when their \<open>map_of\<close> agree.
  \<^item> A JSON column holds the decoded value; \<open>None\<close> stands for a NULL, empty or
    unparseable text, which \<open>_load_json\<close> replaces by its default.
  \<^item> \<open>utcnow_iso()\<close> yields a timestamp, modelled as a number (seconds); it is never
    empty, so a stored timestamp is always truthy.
  \<^item> A raised exception is a value of type \<open>error\<close>.
\<close>

subsection \<open>Errors and text helpers\<close>

datatype error =
    ValueError string
  | RuntimeError string
  | IndexError
  | RequestException string

type_synonym timestamp = nat

text \<open>\<open>str(n)\<close> for an integer: decimal digits, with a minus sign for a negative one.\<close>

definition digit_char :: "nat \<Rightarrow> char" where
  "digit_char d = ''0123456789'' ! d"

fun str_nat :: "nat \<Rightarrow> string" where
  "str_nat n = (if n < 10 then [digit_char n] else str_nat (n div 10) @ [digit_char (n mod 10)])"

declare str_nat.simps [simp del]

definition str_int :: "int \<Rightarrow> string" where
  "str_int i = (if i < 0 then CHR ''-'' # str_nat (nat (- i)) else str_nat (nat i))"

subsection \<open>Numeric range qualifiers\<close>

text \<open>
  \<^verbatim>\<open>
  def _build_numeric_qualifier(name, min_value, max_value):
      if min_value is None and max_value is None: return None
      if min_value is not None and min_value < 0: raise ValueError(f"{name} minimum must be >= 0")
      if max_value is not None and max_value < 0: raise ValueError(f"{name} maximum must be >= 0")
      if min_value is not None and max_value is not None:
          if min_value > max_value:
              raise ValueError(f"{name} minimum cannot be greater than maximum")
          return f"{name}:{min_value}..{max_value}"
      if min_value is not None: return f"{name}:>={min_value}"
      return f"{name}:<={max_value}"
  \<close>
  (The leading underscore of the Python name is dropped.)
\<close>

fun build_numeric_qualifier :: "string \<Rightarrow> int option \<Rightarrow> int option \<Rightarrow> error + string option" where
  "build_numeric_qualifier name None None = Inr None"
| "build_numeric_qualifier name (Some mn) None =
     (if mn < 0 then Inl (ValueError (name @ '' minimum must be >= 0''))
      else Inr (Some (name @ '':>='' @ str_int mn)))"
| "build_numeric_qualifier name None (Some mx) =
     (if mx < 0 then Inl (ValueError (name @ '' maximum must be >= 0''))
      else Inr (Some (name @ '':<='' @ str_int mx)))"
| "build_numeric_qualifier name (Some mn) (Some mx) =
     (if mn < 0 then Inl (ValueError (name @ '' minimum must be >= 0''))
      else if mx < 0 then Inl (ValueError (name @ '' maximum must be >= 0''))
      else if mn > mx then Inl (ValueError (name @ '' minimum cannot be greater than maximum''))
      else Inr (Some (name @ '':'' @ str_int mn @ ''..'' @ str_int mx)))"

text \<open>
  \<open>apply_repo_filters_to_query\<close>: the four qualifiers are built in the order stars, forks,
  followers, topics (the first failure is the one raised); the non-empty ones are joined by
  single spaces and appended to the base query.
\<close>

record repo_filters =
  min_stars :: "int option"
  max_stars :: "int option"
  min_forks :: "int option"
  max_forks :: "int option"
  min_followers :: "int option"
  max_followers :: "int option"
  min_topics :: "int option"
  max_topics :: "int option"

fun join_words :: "string list \<Rightarrow> string" where
  "join_words [] = []"
| "join_words [w] = w"
| "join_words (w # ws) = w @ '' '' @ join_words ws"

fun collect_qualifiers :: "(error + string option) list \<Rightarrow> error + string list" where
  "collect_qualifiers [] = Inr []"
| "collect_qualifiers (Inl e # rest) = Inl e"
| "collect_qualifiers (Inr q # rest) =
     (case collect_qualifiers rest of
        Inl e \<Rightarrow> Inl e
      | Inr qs \<Rightarrow> (case q of None \<Rightarrow> Inr qs
                    | Some t \<Rightarrow> if t = [] then Inr qs else Inr (t # qs)))"

definition apply_repo_filters_to_query :: "string \<Rightarrow> repo_filters \<Rightarrow> error + string" where
  "apply_repo_filters_to_query base_query f =
     (case collect_qualifiers
        [build_numeric_qualifier ''stars'' (min_stars f) (max_stars f),
         build_numeric_qualifier ''forks'' (min_forks f) (max_forks f),
         build_numeric_qualifier ''followers'' (min_followers f) (max_followers f),
         build_numeric_qualifier ''topics'' (min_topics f) (max_topics f)] of
        Inl e \<Rightarrow> Inl e
      | Inr qualifiers \<Rightarrow>
          if qualifiers = [] then Inr base_query
          else Inr (base_query @ '' '' @ join_words qualifiers))"

subsection \<open>Tag merge\<close>

text \<open>
  \<^verbatim>\<open>
  def merge_repo_tags(existing, hit_tags):
      merged = {k: set(v) for k, v in existing.items()}
      for k, v in hit_tags.items():
          merged.setdefault(k, set()).add(v)
      return {k: sorted(list(vs)) for k, vs in merged.items()}
  \<close>
  \<open>setdefault_add k v\<close> is \<open>merged.setdefault(k, set()).add(v)\<close>: the set stored under an
  existing key grows in place, a new key is appended with the singleton. \<open>sorted\<close> of a set
  is \<open>sorted_list_of_set\<close>; strings are ordered lexicographically by character code, as in
  Python.
\<close>

type_synonym hit_tags = "(string \<times> string) list"
type_synonym repo_tags = "(string \<times> string list) list"

fun setdefault_add :: "'k \<Rightarrow> 'v \<Rightarrow> ('k \<times> 'v set) list \<Rightarrow> ('k \<times> 'v set) list" where
  "setdefault_add k v [] = [(k, {v})]"
| "setdefault_add k v ((k', vs) # rest) =
     (if k' = k then (k', insert v vs) # rest else (k', vs) # setdefault_add k v rest)"

fun add_hit_tags :: "('k \<times> 'v) list \<Rightarrow> ('k \<times> 'v set) list \<Rightarrow> ('k \<times> 'v set) list" where
  "add_hit_tags [] merged = merged"
| "add_hit_tags ((k, v) # rest) merged = add_hit_tags rest (setdefault_add k v merged)"

definition merge_repo_tags :: "repo_tags \<Rightarrow> hit_tags \<Rightarrow> repo_tags" where
  "merge_repo_tags existing hit_tags =
     map (\<lambda>(k, vs). (k, sorted_list_of_set vs))
       (add_hit_tags hit_tags (map (\<lambda>(k, v). (k, set v)) existing))"

text \<open>The terms stored under a key of the intermediate dict of sets (none when absent).\<close>

definition terms_of :: "('k \<times> 'v set) list \<Rightarrow> 'k \<Rightarrow> 'v set" where
  "terms_of m k = (case map_of m k of None \<Rightarrow> {} | Some s \<Rightarrow> s)"

subsection \<open>The random generator and weighted draws\<close>

text \<open>
  The generator \<open>random.Random(seed)\<close> is an oracle: the sequence of values in \<open>[0, 1)\<close> that
  its next draws will yield. \<open>rng.random()\<close> takes the next value; \<open>rng.choice(seq)\<close> takes
  the next value \<open>u\<close> and returns \<open>seq[floor(u * len(seq))]\<close>, an index that is uniform over
  the positions of \<open>seq\<close> when \<open>u\<close> is uniform; on an empty sequence it raises \<open>IndexError\<close>.
\<close>

type_synonym rng = "nat \<Rightarrow> real"

definition rng_random :: "rng \<Rightarrow> real \<times> rng" where
  "rng_random g = (g 0, \<lambda>n. g (Suc n))"

definition rng_choice :: "'a list \<Rightarrow> rng \<Rightarrow> error + ('a \<times> rng)" where
  "rng_choice seq g =
     (if seq = [] then Inl IndexError
      else Inr (seq ! nat \<lfloor>g 0 * real (length seq)\<rfloor>, \<lambda>n. g (Suc n)))"

text \<open>
  \<^verbatim>\<open>
  def weighted_choice(items, rng):
      total = sum(w for _, w in items)
      if total <= 0:
          return rng.choice([t for t, _ in items])
      r = rng.random() * total
      upto = 0.0
      for t, w in items:
          upto += w
          if upto >= r:
              return t
      return items[-1][0]
  \<close>
  \<open>weighted_scan\<close> is the \<open>for\<close> loop, its first argument the running sum \<open>upto\<close>;
  \<open>None\<close> means that it ran to its end.
\<close>

fun weighted_scan :: "real \<Rightarrow> real \<Rightarrow> ('a \<times> real) list \<Rightarrow> 'a option" where
  "weighted_scan sofar r [] = None"
| "weighted_scan sofar r ((t, w) # rest) =
     (if sofar + w \<ge> r then Some t else weighted_scan (sofar + w) r rest)"

definition weighted_choice :: "('a \<times> real) list \<Rightarrow> rng \<Rightarrow> error + ('a \<times> rng)" where
  "weighted_choice items g =
     (let total = sum_list (map snd items) in
      if total \<le> 0 then rng_choice (map fst items) g
      else (case rng_random g of (u, g') \<Rightarrow>
        (case weighted_scan 0 (u * total) items of
           Some t \<Rightarrow> Inr (t, g')
         | None \<Rightarrow> Inr (fst (last items), g'))))"

text \<open>
  The dataclass \<open>KeywordRow\<close> (id, category, term, weight) and the helper \<open>pick\<close>, which is
  nested in \<open>make_random_query\<close> and draws from the same generator:
  \<^verbatim>\<open>
  def pick(rows):
      if not rows:
          raise RuntimeError("Cannot pick from empty keyword rows.")
      total = sum(float(r.weight) for r in rows)
      if total <= 0:
          return rng.choice(rows)
      rnum = rng.random() * total
      upto = 0.0
      for row in rows:
          upto += float(row.weight)
          if upto >= rnum:
              return row
      return rows[-1]
  \<close>
\<close>

record KeywordRow =
  row_id :: int
  row_category :: string
  row_term :: string
  row_weight :: real

fun pick_scan :: "real \<Rightarrow> real \<Rightarrow> KeywordRow list \<Rightarrow> KeywordRow option" where
  "pick_scan sofar rnum [] = None"
| "pick_scan sofar rnum (row # rows) =
     (if sofar + row_weight row \<ge> rnum then Some row
      else pick_scan (sofar + row_weight row) rnum rows)"

definition pick :: "KeywordRow list \<Rightarrow> rng \<Rightarrow> error + (KeywordRow \<times> rng)" where
  "pick rows g =
     (if rows = [] then Inl (RuntimeError ''Cannot pick from empty keyword rows.'')
      else let total = sum_list (map row_weight rows) in
        if total \<le> 0 then rng_choice rows g
        else (case rng_random g of (u, g') \<Rightarrow>
          (case pick_scan 0 (u * total) rows of
             Some row \<Rightarrow> Inr (row, g')
           | None \<Rightarrow> Inr (last rows, g'))))"

subsection \<open>Text normalisation\<close>

text \<open>
  \<open>normalize_term(term) = term.strip().lower()\<close>. \<open>strip\<close> removes the white space of
  ASCII at both ends (the codes 9 to 13: tab, line feed, vertical tab, form feed, carriage
  return; 28 to 31: the four separators; 32: the blank); \<open>lower\<close> maps \<open>A\<close> to \<open>Z\<close> (the
  codes 65 to 90) onto \<open>a\<close> to \<open>z\<close>.
\<close>

definition is_space :: "char \<Rightarrow> bool" where
  "is_space c \<longleftrightarrow>
     (let n = of_char c :: nat in (9 \<le> n \<and> n \<le> 13) \<or> (28 \<le> n \<and> n \<le> 32))"

definition strip :: "string \<Rightarrow> string" where
  "strip s = rev (dropWhile is_space (rev (dropWhile is_space s)))"

definition is_upper :: "char \<Rightarrow> bool" where
  "is_upper c \<longleftrightarrow> (let n = of_char c :: nat in 65 \<le> n \<and> n \<le> 90)"

definition lower_char :: "char \<Rightarrow> char" where
  "lower_char c = (if is_upper c then char_of (of_char c + (32::nat)) else c)"

definition lower :: "string \<Rightarrow> string" where
  "lower s = map lower_char s"

definition normalize_term :: "string \<Rightarrow> string" where
  "normalize_term t = lower (strip t)"

subsection \<open>The tables\<close>

text \<open>
  One record per table row, one list of rows per table (\<open>tbl_keywords\<close>, \<open>tbl_queries\<close>, ...),
  in insertion order. The integer keys of \<open>keyword_candidates\<close> and \<open>repo_hits\<close> are never
  read and are left implicit in the position of the row. \<open>queries_seq\<close> is the AUTOINCREMENT
  high-water mark of \<open>queries\<close>. Errors of the SQL engine itself (I/O, the foreign keys of
  \<open>repo_hits\<close>) are outside the model: the harvest loop only ever passes identifiers of rows
  that exist.
\<close>

record keyword_row =
  kw_id :: int
  kw_category :: string
  kw_term :: string
  kw_weight :: real
  kw_status :: string
  kw_source :: string
  kw_created_at :: timestamp
  kw_updated_at :: timestamp

record candidate_source =
  src_repo_full_name :: string
  src_field :: string
  src_evidence :: string

record candidate_row =
  cand_term :: string
  cand_suggested_category :: "string option"
  cand_score :: real
  cand_occurrences :: int
  cand_first_seen_at :: timestamp
  cand_last_seen_at :: timestamp
  cand_sources_json :: "candidate_source list option"
  cand_status :: string

text \<open>The recipe dict: its type, the keywords used (id, category, term) and the bait if any.\<close>

record recipe =
  recipe_type :: string
  recipe_keywords :: "(int \<times> string \<times> string) list"
  recipe_bait :: "string option"

record query_row =
  q_id :: int
  q_query :: string
  q_recipe_json :: recipe
  q_executed_at :: "timestamp option"
  q_last_status :: "int option"
  q_last_total_count :: "int option"
  q_last_error :: "string option"

text \<open>
  A repository record of the search API, a JSON object; the fields the harvester reads
  (\<open>None\<close>: key absent or null).
\<close>

record repo_item =
  item_full_name :: "string option"
  item_html_url :: "string option"
  item_url :: "string option"
  item_description :: "string option"
  item_topics :: "string list option"

record repo_row =
  r_full_name :: string
  r_html_url :: "string option"
  r_api_url :: "string option"
  r_description :: "string option"
  r_first_seen_at :: "timestamp option"
  r_last_seen_at :: "timestamp option"
  r_repo_json :: "repo_item option"
  r_topics_json :: "string list option"
  r_merged_tags_json :: "repo_tags option"

record hit_row =
  h_query_id :: int
  h_repo_full_name :: string
  h_seen_at :: timestamp
  h_hit_tags_json :: hit_tags

record db =
  tbl_keywords :: "keyword_row list"
  tbl_keyword_candidates :: "candidate_row list"
  tbl_queries :: "query_row list"
  queries_seq :: int
  tbl_repos :: "repo_row list"
  tbl_repo_hits :: "hit_row list"

text \<open>\<open>_load_json(s, default)\<close>: the decoded value, or the default.\<close>

definition load_json :: "'a option \<Rightarrow> 'a \<Rightarrow> 'a" where
  "load_json s dflt = (case s of None \<Rightarrow> dflt | Some v \<Rightarrow> v)"

subsection \<open>Keyword look-up and query generation\<close>

text \<open>
  \<open>db_get_active_keywords\<close>:
  \<^verbatim>\<open>SELECT id, category, term, weight FROM keywords WHERE status='active' AND category=?\<close>
\<close>

definition db_get_active_keywords :: "db \<Rightarrow> string \<Rightarrow> KeywordRow list" where
  "db_get_active_keywords s category =
     map (\<lambda>r. \<lparr>row_id = kw_id r, row_category = kw_category r,
                row_term = kw_term r, row_weight = kw_weight r\<rparr>)
       (filter (\<lambda>r. kw_status r = ''active'' \<and> kw_category r = category) (tbl_keywords s))"

definition keyword_ref :: "KeywordRow \<Rightarrow> int \<times> string \<times> string" where
  "keyword_ref r = (row_id r, row_category r, row_term r)"

definition lang_baits :: "string list" where
  "lang_baits = [''c++'', ''fortran'', ''python'', ''julia'', ''rust'', ''cuda'']"

definition lic_baits :: "string list" where
  "lic_baits = [''license'', ''gpl'', ''lgpl'', ''bsd'', ''mit'', ''apache-2.0'', ''mpl-2.0'', ''epl-2.0'']"

text \<open>
  \<open>make_random_query\<close> draws the recipe type, then a domain, an intent and a method (in
  this order, whatever the recipe), then composes the query, the hit tags and the recipe.
  When \<open>DHI\<close> is drawn and no hpc keyword is active, the query is the \<open>DI\<close> one and the
  recipe dict keeps its initial content. Every exception it can raise ends the run.
\<close>

definition compose_query ::
    "string \<Rightarrow> KeywordRow \<Rightarrow> KeywordRow \<Rightarrow> KeywordRow \<Rightarrow> KeywordRow list \<Rightarrow> rng
      \<Rightarrow> error + ((string \<times> hit_tags \<times> recipe) \<times> rng)" where
  "compose_query rtype domn intent method hpcs g =
     (let hit_tags = [(''domain'', row_term domn), (''intent'', row_term intent)];
          recipe0 = \<lparr>recipe_type = rtype, recipe_keywords = [], recipe_bait = None\<rparr>
      in
      if rtype = ''DMI'' then
        Inr ((row_term domn @ '' '' @ row_term method @ '' '' @ row_term intent,
              AList.update ''method'' (row_term method) hit_tags,
              recipe0\<lparr>recipe_keywords := [keyword_ref domn, keyword_ref method, keyword_ref intent]\<rparr>), g)
      else if rtype = ''DI'' then
        Inr ((row_term domn @ '' '' @ row_term intent, hit_tags,
              recipe0\<lparr>recipe_keywords := [keyword_ref domn, keyword_ref intent]\<rparr>), g)
      else if rtype = ''MI'' then
        Inr ((row_term method @ '' '' @ row_term intent,
              [(''method'', row_term method), (''intent'', row_term intent)],
              recipe0\<lparr>recipe_keywords := [keyword_ref method, keyword_ref intent]\<rparr>), g)
      else if rtype = ''DHI'' then
        (if hpcs = [] then Inr ((row_term domn @ '' '' @ row_term intent, hit_tags, recipe0), g)
         else (case pick hpcs g of
             Inl e \<Rightarrow> Inl e
           | Inr (hpc, g') \<Rightarrow>
               Inr ((row_term domn @ '' '' @ row_term intent @ '' '' @ row_term hpc,
                     AList.update ''hpc'' (row_term hpc) hit_tags,
                     recipe0\<lparr>recipe_keywords := [keyword_ref domn, keyword_ref intent, keyword_ref hpc]\<rparr>),
                    g')))
      else
        (case rng_choice (lang_baits @ lic_baits) g of
           Inl e \<Rightarrow> Inl e
         | Inr (bait, g') \<Rightarrow>
             Inr ((row_term domn @ '' '' @ row_term intent @ '' '' @ bait,
                   AList.update ''bait'' bait hit_tags,
                   recipe0\<lparr>recipe_keywords := [keyword_ref domn, keyword_ref intent],
                             recipe_bait := Some bait\<rparr>), g')))"

definition make_random_query :: "db \<Rightarrow> rng \<Rightarrow> error + ((string \<times> hit_tags \<times> recipe) \<times> rng)" where
  "make_random_query s g =
     (let domains = db_get_active_keywords s ''domain'';
          methods = db_get_active_keywords s ''method'';
          intents = db_get_active_keywords s ''intent'';
          hpcs = db_get_active_keywords s ''hpc''
      in
      if domains = [] \<or> methods = [] \<or> intents = [] then
        Inl (RuntimeError ''Not enough active keywords. Run init + seed first.'')
      else
        (case weighted_choice
                [(''DMI'', 0.45), (''DI'', 0.25), (''MI'', 0.15), (''DHI'', 0.10), (''DL'', 0.05)] g of
           Inl e \<Rightarrow> Inl e
         | Inr (rtype, g1) \<Rightarrow>
        (case pick domains g1 of
           Inl e \<Rightarrow> Inl e
         | Inr (domn, g2) \<Rightarrow>
        (case pick intents g2 of
           Inl e \<Rightarrow> Inl e
         | Inr (intent, g3) \<Rightarrow>
        (case pick methods g3 of
           Inl e \<Rightarrow> Inl e
         | Inr (method, g4) \<Rightarrow> compose_query rtype domn intent method hpcs g4)))))"

subsection \<open>The query cache\<close>

text \<open>
  \<open>db_insert_query_if_new\<close>:
  \<^verbatim>\<open>
  INSERT OR IGNORE INTO queries(query, recipe_json) VALUES (?, ?)
  SELECT id FROM queries WHERE query=?     -- no row: RuntimeError
  \<close>
  \<open>query\<close> is UNIQUE, so the insertion is ignored when a row holds the same string. A new
  row gets the next AUTOINCREMENT id, above every id in use and above the high-water mark.
\<close>

definition next_query_id :: "db \<Rightarrow> int" where
  "next_query_id s = fold max (map q_id (tbl_queries s)) (queries_seq s) + 1"

definition db_insert_query_if_new :: "db \<Rightarrow> string \<Rightarrow> recipe \<Rightarrow> error + (db \<times> int)" where
  "db_insert_query_if_new s query rcp =
     (let s' = (if query \<in> q_query ` set (tbl_queries s) then s
                else s\<lparr>tbl_queries := tbl_queries s @
                          [\<lparr>q_id = next_query_id s, q_query = query, q_recipe_json = rcp,
                            q_executed_at = None, q_last_status = None,
                            q_last_total_count = None, q_last_error = None\<rparr>],
                        queries_seq := next_query_id s\<rparr>)
      in case find (\<lambda>r. q_query r = query) (tbl_queries s') of
           None \<Rightarrow> Inl (RuntimeError ''Failed to upsert query row.'')
         | Some r \<Rightarrow> Inr (s', q_id r))"

text \<open>\<open>db_query_is_executed\<close>: \<open>bool(r and r[0])\<close> for the \<open>executed_at\<close> of the row with this id.\<close>

definition db_query_is_executed :: "db \<Rightarrow> int \<Rightarrow> bool" where
  "db_query_is_executed s query_id =
     (case find (\<lambda>r. q_id r = query_id) (tbl_queries s) of
        None \<Rightarrow> False
      | Some r \<Rightarrow> q_executed_at r \<noteq> None)"

text \<open>
  \<open>db_mark_query_executed\<close>:
  \<^verbatim>\<open>UPDATE queries SET executed_at=?, last_status=?, last_total_count=?, last_error=? WHERE id=?\<close>
\<close>

definition db_mark_query_executed ::
    "db \<Rightarrow> timestamp \<Rightarrow> int \<Rightarrow> int \<Rightarrow> int option \<Rightarrow> string option \<Rightarrow> db" where
  "db_mark_query_executed s now query_id status total_count err =
     s\<lparr>tbl_queries := map (\<lambda>r. if q_id r = query_id
                               then r\<lparr>q_executed_at := Some now, q_last_status := Some status,
                                      q_last_total_count := total_count, q_last_error := err\<rparr>
                               else r) (tbl_queries s)\<rparr>"

subsection \<open>Repository upsert\<close>

text \<open>
  \<^verbatim>\<open>
  def db_upsert_repo_and_hit(conn, query_id, repo_item, hit_tags):
      full_name = repo_item.get("full_name")
      if not full_name:
          return
      now = utcnow_iso()
      ...
      incoming_topics = repo_item.get("topics") or []
      incoming_topics = sorted({normalize_term(str(t)) for t in incoming_topics if str(t).strip()})
      row = SELECT merged_tags_json, topics_json FROM repos WHERE full_name=?
      if row:
          existing_tags = _load_json(row[0], {}); existing_topics = _load_json(row[1], [])
          merged_tags = merge_repo_tags(existing_tags, hit_tags)
          merged_topics = sorted(set(existing_topics) | set(incoming_topics))
          UPDATE repos SET html_url, api_url, description, last_seen_at, repo_json,
                           topics_json, merged_tags_json WHERE full_name=?
      else:
          merged_tags = merge_repo_tags({}, hit_tags)
          INSERT INTO repos(...) VALUES (...)
      INSERT INTO repo_hits(query_id, repo_full_name, seen_at, hit_tags_json) VALUES (...)
  \<close>
  \<open>now\<close> is the reading of the clock in this call.
\<close>

definition incoming_topics_of :: "repo_item \<Rightarrow> string list" where
  "incoming_topics_of repo_item =
     sorted_list_of_set
       (set (map normalize_term
          (filter (\<lambda>t. strip t \<noteq> [])
             (case item_topics repo_item of None \<Rightarrow> [] | Some ts \<Rightarrow> ts))))"

definition db_upsert_repo_and_hit :: "db \<Rightarrow> timestamp \<Rightarrow> int \<Rightarrow> repo_item \<Rightarrow> hit_tags \<Rightarrow> db" where
  "db_upsert_repo_and_hit s now query_id repo_item hit_tags =
     (case item_full_name repo_item of
        None \<Rightarrow> s
      | Some full_name \<Rightarrow>
          if full_name = [] then s
          else
            let incoming_topics = incoming_topics_of repo_item;
                s' =
                  (case find (\<lambda>r. r_full_name r = full_name) (tbl_repos s) of
                     Some row \<Rightarrow>
                       let existing_tags = load_json (r_merged_tags_json row) [];
                           existing_topics = load_json (r_topics_json row) [];
                           merged_tags = merge_repo_tags existing_tags hit_tags;
                           merged_topics =
                             sorted_list_of_set (set existing_topics \<union> set incoming_topics)
                       in s\<lparr>tbl_repos :=
                              map (\<lambda>r. if r_full_name r = full_name
                                        then r\<lparr>r_html_url := item_html_url repo_item,
                                               r_api_url := item_url repo_item,
                                               r_description := item_description repo_item,
                                               r_last_seen_at := Some now,
                                               r_repo_json := Some repo_item,
                                               r_topics_json := Some merged_topics,
                                               r_merged_tags_json := Some merged_tags\<rparr>
                                        else r) (tbl_repos s)\<rparr>
                   | None \<Rightarrow>
                       s\<lparr>tbl_repos := tbl_repos s @
                            [\<lparr>r_full_name = full_name,
                              r_html_url = item_html_url repo_item,
                              r_api_url = item_url repo_item,
                              r_description = item_description repo_item,
                              r_first_seen_at = Some now,
                              r_last_seen_at = Some now,
                              r_repo_json = Some repo_item,
                              r_topics_json = Some incoming_topics,
                              r_merged_tags_json = Some (merge_repo_tags [] hit_tags)\<rparr>]\<rparr>)
            in s'\<lparr>tbl_repo_hits := tbl_repo_hits s' @
                     [\<lparr>h_query_id = query_id, h_repo_full_name = full_name,
                       h_seen_at = now, h_hit_tags_json = hit_tags\<rparr>]\<rparr>)"

text \<open>
  A sequence of upsert calls, each with its own clock reading, query id, item and hit tags.
\<close>

fun upsert_calls :: "db \<Rightarrow> (timestamp \<times> int \<times> repo_item \<times> hit_tags) list \<Rightarrow> db" where
  "upsert_calls s [] = s"
| "upsert_calls s ((now, query_id, repo_item, hit_tags) # calls) =
     upsert_calls (db_upsert_repo_and_hit s now query_id repo_item hit_tags) calls"

text \<open>What is stored for a repository: its topic set and, per category, its tag terms.\<close>

definition stored_topics :: "db \<Rightarrow> string \<Rightarrow> string set" where
  "stored_topics s full_name =
     (case find (\<lambda>r. r_full_name r = full_name) (tbl_repos s) of
        None \<Rightarrow> {}
      | Some row \<Rightarrow> set (load_json (r_topics_json row) []))"

definition stored_tags :: "db \<Rightarrow> string \<Rightarrow> string \<Rightarrow> string set" where
  "stored_tags s full_name category =
     (case find (\<lambda>r. r_full_name r = full_name) (tbl_repos s) of
        None \<Rightarrow> {}
      | Some row \<Rightarrow>
          (case map_of (load_json (r_merged_tags_json row) []) category of
             None \<Rightarrow> {}
           | Some terms \<Rightarrow> set terms))"

subsection \<open>Keyword candidates\<close>

text \<open>
  \<^verbatim>\<open>
  def db_add_candidate(conn, term, field, repo_full_name, score_inc=1.0):
      term = normalize_term(term); now = utcnow_iso()
      row = SELECT score, occurrences, sources_json, status FROM keyword_candidates WHERE term=?
      new_source = {"repo_full_name": repo_full_name, "field": field, "evidence": term}
      if row:
          sources = _load_json(sources_json, [])
          if len(sources) < 30: sources.append(new_source)
          UPDATE keyword_candidates SET score=score+score_inc, occurrences=occ+1,
                 last_seen_at=now, sources_json=sources WHERE term=?
      else:
          INSERT INTO keyword_candidates(term, suggested_category, score, occurrences,
                 first_seen_at, last_seen_at, sources_json, status)
          VALUES (term, NULL, score_inc, 1, now, now, [new_source], 'pending')
  \<close>
\<close>

definition candidate_row_of :: "db \<Rightarrow> string \<Rightarrow> candidate_row option" where
  "candidate_row_of s t = find (\<lambda>r. cand_term r = t) (tbl_keyword_candidates s)"

definition db_add_candidate :: "db \<Rightarrow> timestamp \<Rightarrow> string \<Rightarrow> string \<Rightarrow> string \<Rightarrow> real \<Rightarrow> db" where
  "db_add_candidate s now term0 field repo_full_name score_inc =
     (let t = normalize_term term0;
          new_source = \<lparr>src_repo_full_name = repo_full_name, src_field = field, src_evidence = t\<rparr>
      in case candidate_row_of s t of
           Some row \<Rightarrow>
             let sources = load_json (cand_sources_json row) [];
                 sources' = (if length sources < 30 then sources @ [new_source] else sources)
             in s\<lparr>tbl_keyword_candidates :=
                    map (\<lambda>r. if cand_term r = t
                              then r\<lparr>cand_score := cand_score row + score_inc,
                                     cand_occurrences := cand_occurrences row + 1,
                                     cand_last_seen_at := now,
                                     cand_sources_json := Some sources'\<rparr>
                              else r) (tbl_keyword_candidates s)\<rparr>
         | None \<Rightarrow>
             s\<lparr>tbl_keyword_candidates := tbl_keyword_candidates s @
                  [\<lparr>cand_term = t, cand_suggested_category = None, cand_score = score_inc,
                    cand_occurrences = 1, cand_first_seen_at = now, cand_last_seen_at = now,
                    cand_sources_json = Some [new_source], cand_status = ''pending''\<rparr>]\<rparr>)"







subsection \<open>Candidate extraction\<close>

definition STOPWORDS :: "string set" where
  "STOPWORDS = set
     [''the'', ''and'', ''or'', ''a'', ''an'', ''for'', ''to'', ''of'', ''in'', ''on'', ''with'', ''by'',
      ''this'', ''that'', ''based'', ''using'', ''use'', ''uses'', ''used'', ''from'',
      ''code'', ''codes'', ''project'', ''repo'', ''repository'', ''library'', ''framework'',
      ''tool'', ''tools'', ''software'',
      ''open'', ''source'', ''opensource'', ''open-source'',
      ''solver'', ''simulation'', ''simulator'', ''engine'',
      ''github'', ''gitlab'', ''example'', ''examples'', ''tutorial'', ''docs'', ''documentation'']"

text \<open>
  \<open>re.split(r"[^a-zA-Z0-9\-\_]+", text)\<close>: the pieces between the maximal runs of
  characters outside the class, an empty piece at either end when the text starts or ends
  with such a run. The second argument of \<open>split_runs\<close> is the piece being read.
\<close>

definition is_lower_alnum :: "char \<Rightarrow> bool" where
  "is_lower_alnum c \<longleftrightarrow> (CHR ''a'' \<le> c \<and> c \<le> CHR ''z'') \<or> (CHR ''0'' \<le> c \<and> c \<le> CHR ''9'')"

definition is_word_char :: "char \<Rightarrow> bool" where
  "is_word_char c \<longleftrightarrow> is_lower_alnum c \<or> is_upper c \<or> c = CHR ''-'' \<or> c = CHR ''_''"

fun split_runs :: "(char \<Rightarrow> bool) \<Rightarrow> string \<Rightarrow> string \<Rightarrow> string list" where
  "split_runs sep piece [] = [piece]"
| "split_runs sep piece [c] = (if sep c then [piece, []] else [piece @ [c]])"
| "split_runs sep piece (c # d # cs) =
     (if sep c then (if sep d then split_runs sep piece (d # cs)
                     else piece # split_runs sep [] (d # cs))
      else split_runs sep (piece @ [c]) (d # cs))"

text \<open>
  \<open>t.isdigit()\<close>, and \<open>TOKEN_RE.match(t)\<close> for
  \<open>TOKEN_RE = re.compile(r"[a-z0-9][a-z0-9\-\_]{2,48}$")\<close>: a first character in \<open>[a-z0-9]\<close>
  followed by 2 to 48 characters of \<open>[a-z0-9\-\_]\<close>, up to the end of the token.
\<close>

definition isdigit :: "string \<Rightarrow> bool" where
  "isdigit t \<longleftrightarrow> t \<noteq> [] \<and> list_all (\<lambda>c. CHR ''0'' \<le> c \<and> c \<le> CHR ''9'') t"

definition token_re_match :: "string \<Rightarrow> bool" where
  "token_re_match t =
     (case t of
        [] \<Rightarrow> False
      | c # rest \<Rightarrow> is_lower_alnum c \<and> 2 \<le> length rest \<and> length rest \<le> 48
          \<and> list_all (\<lambda>d. is_lower_alnum d \<or> d = CHR ''-'' \<or> d = CHR ''_'') rest)"

text \<open>
  \<^verbatim>\<open>
  def extract_candidate_terms(text):
      if not text: return []
      raw = re.split(r"[^a-zA-Z0-9\-\_]+", text.lower())
      terms = []
      for t in raw:
          t = normalize_term(t)
          if not t: continue
          if t in STOPWORDS: continue
          if t.isdigit(): continue
          if not TOKEN_RE.match(t): continue
          if t in {"readme", "docs", "doc", "test", "tests"}: continue
          terms.append(t)
      return terms
  \<close>
\<close>

definition extract_candidate_terms :: "string \<Rightarrow> string list" where
  "extract_candidate_terms text =
     (if text = [] then []
      else filter
        (\<lambda>t. t \<noteq> [] \<and> t \<notin> STOPWORDS \<and> \<not> isdigit t \<and> token_re_match t
           \<and> t \<notin> set [''readme'', ''docs'', ''doc'', ''test'', ''tests''])
        (map normalize_term (split_runs (\<lambda>c. \<not> is_word_char c) [] (lower text))))"

text \<open>
  \<^verbatim>\<open>
  def should_skip_candidate_term(term, existing_keyword_terms):
      t = normalize_term(term)
      if not t: return True
      if t in existing_keyword_terms: return True
      for kw in existing_keyword_terms:
          if not kw: continue
          if kw in t or t in kw: return True
      return False
  \<close>
  \<open>kw in t\<close> is the substring test, \<open>sublist kw t\<close>.
\<close>

definition should_skip_candidate_term :: "string \<Rightarrow> string set \<Rightarrow> bool" where
  "should_skip_candidate_term term0 existing_keyword_terms =
     (let t = normalize_term term0 in
      if t = [] then True
      else if t \<in> existing_keyword_terms then True
      else (\<exists>kw \<in> existing_keyword_terms. kw \<noteq> [] \<and> (sublist kw t \<or> sublist t kw)))"

text \<open>
  \<open>run_extract_candidates\<close> reads the repositories to scan and the keyword terms first
  \<^verbatim>\<open>
  SELECT full_name, repo_json, topics_json FROM repos ORDER BY last_seen_at DESC LIMIT ?
  SELECT DISTINCT term FROM keywords
  existing_keyword_terms = {normalize_term(r[0]) for r in cur.fetchall() if r[0]}
  \<close>
  (every keyword, whatever its status; a negative LIMIT is no limit; NULL sorts last in a
  descending order; the order of rows with equal \<open>last_seen_at\<close> is left open by SQL and is
  fixed here), then scans the description tokens and the topics of each repository:
  \<^verbatim>\<open>
  for t in extract_candidate_terms(desc):
      if t in STOPWORDS: continue
      if should_skip_candidate_term(t, existing_keyword_terms): continue
      db_add_candidate(conn, t, "description", full_name, score_inc=0.3)
  for topic in topics:
      t = normalize_term(str(topic))
      if not t or t in STOPWORDS: continue
      if should_skip_candidate_term(t, existing_keyword_terms): continue
      db_add_candidate(conn, t, "topic", full_name, score_inc=1.0)
  \<close>
  The clock is a function from the number of readings made so far to the time read; the
  scans carry the database and that number. The closing \<open>UPDATE ... WHERE 1=0\<close> writes nothing.
\<close>

definition recent_repos :: "db \<Rightarrow> int \<Rightarrow> repo_row list" where
  "recent_repos s limit_repos =
     (let rows = rev (sort_key r_last_seen_at (tbl_repos s)) in
      if limit_repos < 0 then rows else take (nat limit_repos) rows)"

definition existing_keyword_terms_of :: "db \<Rightarrow> string set" where
  "existing_keyword_terms_of s =
     set (map (\<lambda>r. normalize_term (kw_term r)) (filter (\<lambda>r. kw_term r \<noteq> []) (tbl_keywords s)))"

fun scan_description_terms ::
    "(nat \<Rightarrow> timestamp) \<Rightarrow> string set \<Rightarrow> string \<Rightarrow> string list \<Rightarrow> db \<times> nat \<Rightarrow> db \<times> nat" where
  "scan_description_terms clock kws full_name [] st = st"
| "scan_description_terms clock kws full_name (t # ts) (s, n) =
     scan_description_terms clock kws full_name ts
       (if t \<in> STOPWORDS then (s, n)
        else if should_skip_candidate_term t kws then (s, n)
        else (db_add_candidate s (clock n) t ''description'' full_name 0.3, Suc n))"

fun scan_topics ::
    "(nat \<Rightarrow> timestamp) \<Rightarrow> string set \<Rightarrow> string \<Rightarrow> string list \<Rightarrow> db \<times> nat \<Rightarrow> db \<times> nat" where
  "scan_topics clock kws full_name [] st = st"
| "scan_topics clock kws full_name (topic # topics) (s, n) =
     scan_topics clock kws full_name topics
       (let t = normalize_term topic in
        if t = [] \<or> t \<in> STOPWORDS then (s, n)
        else if should_skip_candidate_term t kws then (s, n)
        else (db_add_candidate s (clock n) t ''topic'' full_name 1.0, Suc n))"

definition scan_repo :: "(nat \<Rightarrow> timestamp) \<Rightarrow> string set \<Rightarrow> repo_row \<Rightarrow> db \<times> nat \<Rightarrow> db \<times> nat" where
  "scan_repo clock kws row st =
     (let desc = (case r_repo_json row of
                    None \<Rightarrow> []
                  | Some repo \<Rightarrow> (case item_description repo of None \<Rightarrow> [] | Some d \<Rightarrow> d));
          topics = load_json (r_topics_json row) []
      in scan_topics clock kws (r_full_name row) topics
           (scan_description_terms clock kws (r_full_name row) (extract_candidate_terms desc) st))"

fun scan_repos :: "(nat \<Rightarrow> timestamp) \<Rightarrow> string set \<Rightarrow> repo_row list \<Rightarrow> db \<times> nat \<Rightarrow> db \<times> nat" where
  "scan_repos clock kws [] st = st"
| "scan_repos clock kws (row # rows) st = scan_repos clock kws rows (scan_repo clock kws row st)"

definition run_extract_candidates :: "db \<Rightarrow> (nat \<Rightarrow> timestamp) \<Rightarrow> int \<Rightarrow> db" where
  "run_extract_candidates s clock limit_repos =
     fst (scan_repos clock (existing_keyword_terms_of s) (recent_repos s limit_repos) (s, 0))"

subsection \<open>The harvest loop\<close>

text \<open>
  The search endpoint is an oracle: given how many requests were issued before and the
  request, either the call raises (\<open>Inl\<close>, the \<open>repr\<close> of the exception: a timeout, a
  connection failure) or a response comes back. A response has a status code, a body text
  and, through \<open>resp.json()\<close>, either an exception or the decoded object with its
  \<open>total_count\<close> and \<open>items\<close> keys (\<open>None\<close>: key absent). \<open>maybe_sleep_from_rate_limit\<close>
  only waits; waiting changes neither the database nor the requests and is left out.
\<close>

record search_request =
  rq_query :: string
  rq_per_page :: int
  rq_page :: int
  rq_sort :: string
  rq_order :: string

record search_data =
  data_total_count :: "int option"
  data_items :: "repo_item list option"

record search_response =
  resp_status_code :: int
  resp_text :: string
  resp_json :: "string + search_data"

type_synonym search_api = "nat \<Rightarrow> search_request \<Rightarrow> string + search_response"

record harvest_params =
  steps :: int
  per_page :: int
  pages_per_query :: int
  sort_by :: string
  order_by :: string
  filters :: repo_filters
  max_query_attempts :: int

text \<open>The variables of one query's paging, and the variables of the whole run.\<close>

record paging_state =
  pg_db :: db
  pg_clock_reads :: nat
  pg_requests :: "search_request list"
  pg_total_count :: "int option"
  pg_collected :: int

record harvest_state =
  h_db :: db
  h_rng :: rng
  h_clock_reads :: nat
  h_requests :: "search_request list"
  executed_steps :: int
  attempts :: int

text \<open>
  \<^verbatim>\<open>
  for item in items:
      db_upsert_repo_and_hit(conn, qid, item, hit_tags)
      collected += 1
  \<close>
  The upsert reads the clock only past its \<open>full_name\<close> guard.
\<close>

fun merge_items ::
    "(nat \<Rightarrow> timestamp) \<Rightarrow> int \<Rightarrow> hit_tags \<Rightarrow> repo_item list \<Rightarrow> paging_state \<Rightarrow> paging_state" where
  "merge_items clock qid hit_tags [] st = st"
| "merge_items clock qid hit_tags (item # items) st =
     merge_items clock qid hit_tags items
       (st\<lparr>pg_db := db_upsert_repo_and_hit (pg_db st) (clock (pg_clock_reads st)) qid item hit_tags,
           pg_clock_reads :=
             (if item_full_name item = None \<or> item_full_name item = Some []
              then pg_clock_reads st else Suc (pg_clock_reads st)),
           pg_collected := pg_collected st + 1\<rparr>)"

text \<open>
  The body of the \<open>try\<close>, up to the end of the \<open>for page\<close> loop:
  \<^verbatim>\<open>
  for page in range(1, pages_per_query + 1):
      resp = client.search_repositories(query, per_page=per_page, page=page, sort=sort, order=order)
      maybe_sleep_from_rate_limit(resp, min_sleep=min_sleep)
      if resp.status_code != 200:
          db_mark_query_executed(conn, qid, resp.status_code, None, resp.text[:5000])
          break
      data = resp.json()
      if total_count is None:
          total_count = int(data.get("total_count", 0))
      items = data.get("items", [])
      if not items:
          break
      for item in items: ...
  \<close>
  The result is the exception that left the loop, if any, and the state reached; a \<open>break\<close>
  and the end of the range both leave the loop without exception.
\<close>

fun page_loop ::
    "harvest_params \<Rightarrow> (nat \<Rightarrow> timestamp) \<Rightarrow> search_api \<Rightarrow> int \<Rightarrow> string \<Rightarrow> hit_tags
      \<Rightarrow> int list \<Rightarrow> paging_state \<Rightarrow> string option \<times> paging_state" where
  "page_loop P clock api qid query hit_tags [] st = (None, st)"
| "page_loop P clock api qid query hit_tags (page # pages) st =
     (let request = \<lparr>rq_query = query, rq_per_page = per_page P, rq_page = page,
                      rq_sort = sort_by P, rq_order = order_by P\<rparr>;
          st1 = st\<lparr>pg_requests := pg_requests st @ [request]\<rparr>
      in case api (length (pg_requests st)) request of
           Inl exc \<Rightarrow> (Some exc, st1)
         | Inr resp \<Rightarrow>
             if resp_status_code resp \<noteq> 200 then
               (None,
                st1\<lparr>pg_db := db_mark_query_executed (pg_db st1) (clock (pg_clock_reads st1)) qid
                               (resp_status_code resp) None (Some (take 5000 (resp_text resp))),
                    pg_clock_reads := Suc (pg_clock_reads st1)\<rparr>)
             else
               (case resp_json resp of
                  Inl exc \<Rightarrow> (Some exc, st1)
                | Inr data \<Rightarrow>
                    let st2 = (if pg_total_count st1 = None
                               then st1\<lparr>pg_total_count :=
                                      Some (case data_total_count data of None \<Rightarrow> 0 | Some n \<Rightarrow> n)\<rparr>
                               else st1);
                        items = (case data_items data of None \<Rightarrow> [] | Some xs \<Rightarrow> xs)
                    in if items = [] then (None, st2)
                       else page_loop P clock api qid query hit_tags pages
                              (merge_items clock qid hit_tags items st2)))"

text \<open>
  One iteration of the \<open>while\<close> loop of \<open>run_harvest\<close>:
  \<^verbatim>\<open>
  attempts += 1
  query, hit_tags, recipe = make_random_query(conn, rng)
  query = apply_repo_filters_to_query(base_query=query, ...)
  qid = db_insert_query_if_new(conn, query, recipe)
  if db_query_is_executed(conn, qid):
      continue  # cached, don't re-run
  total_count = None
  try:
      collected = 0
      for page in range(1, pages_per_query + 1): ...
      db_mark_query_executed(conn, qid, 200, total_count, None)
      executed_steps += 1
  except Exception as e:
      db_mark_query_executed(conn, qid, 0, total_count, repr(e))
  \<close>
  The second component of the result is the exception that ends the run, if any: those of
  \<open>make_random_query\<close>, \<open>apply_repo_filters_to_query\<close> and \<open>db_insert_query_if_new\<close> are
  raised outside the \<open>try\<close>.
\<close>

definition harvest_body ::
    "harvest_params \<Rightarrow> (nat \<Rightarrow> timestamp) \<Rightarrow> search_api \<Rightarrow> harvest_state
      \<Rightarrow> harvest_state \<times> error option" where
  "harvest_body P clock api st =
     (let st1 = st\<lparr>attempts := attempts st + 1\<rparr> in
      case make_random_query (h_db st1) (h_rng st1) of
        Inl e \<Rightarrow> (st1, Some e)
      | Inr ((query0, hit_tags, rcp), g') \<Rightarrow>
      (case apply_repo_filters_to_query query0 (filters P) of
        Inl e \<Rightarrow> (st1\<lparr>h_rng := g'\<rparr>, Some e)
      | Inr query \<Rightarrow>
      (case db_insert_query_if_new (h_db st1) query rcp of
        Inl e \<Rightarrow> (st1\<lparr>h_rng := g'\<rparr>, Some e)
      | Inr (s', qid) \<Rightarrow>
          if db_query_is_executed s' qid then (st1\<lparr>h_db := s', h_rng := g'\<rparr>, None)
          else
            (case page_loop P clock api qid query hit_tags [1..pages_per_query P]
                    \<lparr>pg_db = s', pg_clock_reads = h_clock_reads st1,
                     pg_requests = h_requests st1, pg_total_count = None, pg_collected = 0\<rparr> of
               (None, pg) \<Rightarrow>
                 (st1\<lparr>h_db := db_mark_query_executed (pg_db pg) (clock (pg_clock_reads pg)) qid
                                 200 (pg_total_count pg) None,
                       h_rng := g',
                       h_clock_reads := Suc (pg_clock_reads pg),
                       h_requests := pg_requests pg,
                       executed_steps := executed_steps st1 + 1\<rparr>, None)
             | (Some exc, pg) \<Rightarrow>
                 (st1\<lparr>h_db := db_mark_query_executed (pg_db pg) (clock (pg_clock_reads pg)) qid
                                 0 (pg_total_count pg) (Some exc),
                       h_rng := g',
                       h_clock_reads := Suc (pg_clock_reads pg),
                       h_requests := pg_requests pg\<rparr>, None)))))"

lemma attempts_harvest_body: "attempts (fst (harvest_body P clock api st)) = attempts st + 1"
  by (simp add: harvest_body_def Let_def split: sum.splits prod.splits option.splits)

text \<open>
  \<^verbatim>\<open>while executed_steps < steps and attempts < (steps * max_query_attempts): ...\<close>
  Every iteration adds one to \<open>attempts\<close>, so the loop ends.
\<close>

function harvest_loop ::
    "harvest_params \<Rightarrow> (nat \<Rightarrow> timestamp) \<Rightarrow> search_api \<Rightarrow> harvest_state
      \<Rightarrow> harvest_state \<times> error option" where
  "harvest_loop P clock api st =
     (if executed_steps st < steps P \<and> attempts st < steps P * max_query_attempts P
      then (case harvest_body P clock api st of
              (st', Some e) \<Rightarrow> (st', Some e)
            | (st', None) \<Rightarrow> harvest_loop P clock api st')
      else (st, None))"
  by pat_completeness auto

termination
proof (relation "measure (\<lambda>(P, clock, api, st). nat (steps P * max_query_attempts P - attempts st))",
    goal_cases)
  case 1
  show ?case by simp
next
  case (2 P clock api st st' e)
  from 2(2) have "attempts st' = attempts st + 1"
    using attempts_harvest_body [of P clock api st] by (metis fst_conv)
  with 2(1) show ?case by simp
qed

declare harvest_loop.simps [simp del]

text \<open>\<open>run_harvest\<close>: the loop from \<open>executed_steps = 0\<close>, \<open>attempts = 0\<close> and a fresh generator.\<close>

definition run_harvest ::
    "harvest_params \<Rightarrow> (nat \<Rightarrow> timestamp) \<Rightarrow> search_api \<Rightarrow> db \<Rightarrow> rng \<Rightarrow> harvest_state \<times> error option" where
  "run_harvest P clock api s g =
     harvest_loop P clock api
       \<lparr>h_db = s, h_rng = g, h_clock_reads = 0, h_requests = [], executed_steps = 0, attempts = 0\<rparr>"

subsection \<open>Concrete states used to exercise the model\<close>

text \<open>
  A three-keyword vocabulary (one domain, one method, one intent), a repository record, two
  keyword rows of weight 0 and 1, and a cache holding one executed query.
\<close>

definition seed_db :: db where
  "seed_db =
     \<lparr>tbl_keywords =
        [\<lparr>kw_id = 1, kw_category = ''domain'', kw_term = ''cfd'', kw_weight = 1.0,
          kw_status = ''active'', kw_source = ''manual'', kw_created_at = 0, kw_updated_at = 0\<rparr>,
         \<lparr>kw_id = 2, kw_category = ''method'', kw_term = ''fem'', kw_weight = 1.0,
          kw_status = ''active'', kw_source = ''manual'', kw_created_at = 0, kw_updated_at = 0\<rparr>,
         \<lparr>kw_id = 3, kw_category = ''intent'', kw_term = ''solver'', kw_weight = 1.0,
          kw_status = ''active'', kw_source = ''manual'', kw_created_at = 0, kw_updated_at = 0\<rparr>],
      tbl_keyword_candidates = [],
      tbl_queries = [],
      queries_seq = 0,
      tbl_repos = [],
      tbl_repo_hits = []\<rparr>"

definition repo_a_b :: repo_item where
  "repo_a_b = \<lparr>item_full_name = Some ''a/b'', item_html_url = Some ''https://github.com/a/b'',
               item_url = Some ''https://api.github.com/repos/a/b'',
               item_description = Some ''A CFD mesh toolkit'', item_topics = Some [''Mesh '', ''cfd'']\<rparr>"



definition cached_query :: query_row where
  "cached_query = \<lparr>q_id = 7, q_query = ''cfd fem solver'',
     q_recipe_json = \<lparr>recipe_type = ''DMI'',
        recipe_keywords = [(1, ''domain'', ''cfd''), (2, ''method'', ''fem''), (3, ''intent'', ''solver'')],
        recipe_bait = None\<rparr>,
     q_executed_at = Some 100, q_last_status = Some 200, q_last_total_count = Some 12,
     q_last_error = None\<rparr>"

definition cached_db :: db where
  "cached_db = seed_db\<lparr>tbl_queries := [cached_query], queries_seq := 7\<rparr>"

definition two_upserts :: "(timestamp \<times> int \<times> repo_item \<times> hit_tags) list" where
  "two_upserts = [(10, 1, repo_a_b, [(''domain'', ''cfd'')]),
                  (20, 2, repo_a_b\<lparr>item_topics := None\<rparr>, [(''method'', ''fem'')])]"

text \<open>
  The state after the two upserts, and the same state with one more active keyword whose
  term is empty (what promoting a blank term stores).
\<close>

definition harvested_db :: db where
  "harvested_db = upsert_calls seed_db two_upserts"

definition blank_keyword :: keyword_row where
  "blank_keyword = \<lparr>kw_id = 4, kw_category = ''domain'', kw_term = [], kw_weight = 0.4,
      kw_status = ''active'', kw_source = ''auto'', kw_created_at = 0, kw_updated_at = 0\<rparr>"

definition blank_keyword_db :: db where
  "blank_keyword_db = harvested_db\<lparr>tbl_keywords := tbl_keywords harvested_db @ [blank_keyword]\<rparr>"

text \<open>
  A one-step run without qualifiers, an endpoint that answers every request with HTTP 403,
  and the start of a run whose generator yields 0.1 at every draw (the recipe \<open>DMI\<close> and,
  from the three-keyword vocabulary, the query \<open>cfd fem solver\<close>).
\<close>

definition no_filters :: repo_filters where
  "no_filters = \<lparr>min_stars = None, max_stars = None, min_forks = None, max_forks = None,
                 min_followers = None, max_followers = None, min_topics = None, max_topics = None\<rparr>"

definition one_step :: harvest_params where
  "one_step = \<lparr>steps = 1, per_page = 50, pages_per_query = 2, sort_by = ''updated'',
               order_by = ''desc'', filters = no_filters, max_query_attempts = 50\<rparr>"

definition forbidden_api :: search_api where
  "forbidden_api n request =
     Inr \<lparr>resp_status_code = 403, resp_text = ''API rate limit exceeded'',
          resp_json = Inl ''JSONDecodeError''\<rparr>"

definition start_state :: "db \<Rightarrow> harvest_state" where
  "start_state s = \<lparr>h_db = s, h_rng = (\<lambda>n. 1/10), h_clock_reads = 0, h_requests = [],
                     executed_steps = 0, attempts = 0\<rparr>"

section \<open>Properties\<close>

subsection \<open>Numeric qualifiers\<close>

lemma build_numeric_qualifier_raises_iff:
  "(\<exists>e. build_numeric_qualifier name mn mx = Inl e) \<longleftrightarrow>
     (\<exists>a. mn = Some a \<and> a < 0) \<or> (\<exists>b. mx = Some b \<and> b < 0) \<or>
     (\<exists>a b. mn = Some a \<and> mx = Some b \<and> a > b)"
  by (cases "(name, mn, mx)" rule: build_numeric_qualifier.cases) auto

text \<open>
  Claim C6. \<open>_build_numeric_qualifier\<close> raises a validation error exactly when the minimum
  is negative, the maximum is negative, or both are given with minimum above maximum (and
  what it raises is always a \<open>ValueError\<close>). Otherwise it returns \<open>None\<close> for no bound,
  \<open>name:min..max\<close> for two bounds (equal bounds accepted), \<open>name:>=min\<close> for a minimum
  alone and \<open>name:<=max\<close> for a maximum alone.
\<close>

theorem build_numeric_qualifier_spec:
  "((\<exists>e. build_numeric_qualifier name mn mx = Inl e) \<longleftrightarrow>
      (\<exists>a. mn = Some a \<and> a < 0) \<or> (\<exists>b. mx = Some b \<and> b < 0) \<or>
      (\<exists>a b. mn = Some a \<and> mx = Some b \<and> a > b))
   \<and> (\<forall>e. build_numeric_qualifier name mn mx = Inl e \<longrightarrow> (\<exists>msg. e = ValueError msg))
   \<and> build_numeric_qualifier name None None = Inr None
   \<and> (0 \<le> a \<and> a \<le> b \<longrightarrow>
        build_numeric_qualifier name (Some a) (Some b)
          = Inr (Some (name @ '':'' @ str_int a @ ''..'' @ str_int b)))
   \<and> (0 \<le> a \<longrightarrow>
        build_numeric_qualifier name (Some a) None = Inr (Some (name @ '':>='' @ str_int a)))
   \<and> (0 \<le> b \<longrightarrow>
        build_numeric_qualifier name None (Some b) = Inr (Some (name @ '':<='' @ str_int b)))"
proof -
  have "\<forall>e. build_numeric_qualifier name mn mx = Inl e \<longrightarrow> (\<exists>msg. e = ValueError msg)"
    by (cases "(name, mn, mx)" rule: build_numeric_qualifier.cases) auto
  then show ?thesis
    using build_numeric_qualifier_raises_iff [of name mn mx] by simp
qed

theorem build_numeric_qualifier_spec_witness:
  "build_numeric_qualifier ''stars'' (Some 5) (Some 5) = Inr (Some ''stars:5..5'')
   \<and> build_numeric_qualifier ''stars'' (Some 10) None = Inr (Some ''stars:>=10'')
   \<and> build_numeric_qualifier ''stars'' None (Some 250) = Inr (Some ''stars:<=250'')
   \<and> (\<exists>e. build_numeric_qualifier ''stars'' (Some 7) (Some 3) = Inl e)"
  using build_numeric_qualifier_spec [of "''stars''" "Some 7" "Some 3" 5 5]
    build_numeric_qualifier_spec [of "''stars''" "Some 7" "Some 3" 10 250]
  by (simp add: str_int_def str_nat.simps digit_char_def)

subsection \<open>Tag merge\<close>

lemma map_of_setdefault_add:
  "map_of (setdefault_add k v m) = (map_of m)(k \<mapsto> insert v (terms_of m k))"
  by (induction m) (auto simp: terms_of_def fun_eq_iff)

lemma keys_setdefault_add: "fst ` set (setdefault_add k v m) = insert k (fst ` set m)"
  by (induction k v m rule: setdefault_add.induct) auto

lemma setdefault_add_absorb:
  "map_of m k = Some s \<Longrightarrow> v \<in> s \<Longrightarrow> setdefault_add k v m = m"
  by (induction m) (auto simp: insert_absorb)

lemma finite_setdefault_add:
  "\<forall>(k', s) \<in> set m. finite s \<Longrightarrow> \<forall>(k', s) \<in> set (setdefault_add k v m). finite s"
  by (induction k v m rule: setdefault_add.induct) (auto split: if_splits)

lemma map_of_add_hit_tags:
  "map_of (add_hit_tags h m) k =
     (if k \<in> fst ` set h \<union> fst ` set m
      then Some (terms_of m k \<union> {v. (k, v) \<in> set h}) else None)"
proof (induction h arbitrary: m)
  case Nil
  then show ?case
    by (auto simp: terms_of_def map_of_eq_None_iff split: option.splits
        dest: weak_map_of_SomeI)
next
  case (Cons p h)
  obtain k' v' where p: "p = (k', v')" by (cases p)
  show ?case
    unfolding p add_hit_tags.simps Cons.IH
    by (auto simp: keys_setdefault_add terms_of_def map_of_setdefault_add)
qed

lemma finite_add_hit_tags:
  "\<forall>(k', s) \<in> set m. finite s \<Longrightarrow> \<forall>(k', s) \<in> set (add_hit_tags h m). finite s"
proof (induction h arbitrary: m)
  case Nil then show ?case by simp
next
  case (Cons p h)
  obtain k' v' where p: "p = (k', v')" by (cases p)
  show ?case unfolding p add_hit_tags.simps
    by (rule Cons.IH) (rule finite_setdefault_add [OF Cons.prems])
qed

lemma add_hit_tags_absorb:
  "\<forall>(k, v) \<in> set h. \<exists>s. map_of m k = Some s \<and> v \<in> s \<Longrightarrow> add_hit_tags h m = m"
  by (induction h arbitrary: m) (auto simp: setdefault_add_absorb)

lemma map_of_merge_repo_tags:
  "map_of (merge_repo_tags E h) k =
     (if k \<in> fst ` set h \<union> fst ` set E
      then Some (sorted_list_of_set
             ((case map_of E k of None \<Rightarrow> {} | Some vs \<Rightarrow> set vs) \<union> {v. (k, v) \<in> set h}))
      else None)"
proof -
  have "terms_of (map (\<lambda>(k, v). (k, set v)) E) k
          = (case map_of E k of None \<Rightarrow> {} | Some vs \<Rightarrow> set vs)"
    by (simp add: terms_of_def map_of_map split: option.splits)
  moreover have "fst ` set (map (\<lambda>(k, v). (k, set v)) E) = fst ` set E"
    by force
  ultimately show ?thesis
    by (simp add: merge_repo_tags_def map_of_map map_of_add_hit_tags)
qed

lemma finite_incoming: "finite {v. (k, v) \<in> set h}"
  by (rule finite_subset [of _ "snd ` set h"]) force+

lemma finite_existing: "finite (case map_of E k of None \<Rightarrow> {} | Some vs \<Rightarrow> set vs)"
  by (simp split: option.splits)

lemma incoming_empty: "k \<notin> fst ` set h \<Longrightarrow> {v. (k, v) \<in> set h} = {}"
  by force

lemma set_terms_merge_repo_tags:
  "(case map_of (merge_repo_tags E h) k of None \<Rightarrow> {} | Some vs \<Rightarrow> set vs)
     = (case map_of E k of None \<Rightarrow> {} | Some vs \<Rightarrow> set vs) \<union> {v. (k, v) \<in> set h}"
proof (cases "k \<in> fst ` set h \<union> fst ` set E")
  case True
  then show ?thesis
    by (simp add: map_of_merge_repo_tags finite_incoming finite_existing)
next
  case False
  then have "map_of E k = None" "{v. (k, v) \<in> set h} = {}"
    by (simp_all add: map_of_eq_None_iff incoming_empty)
  with False show ?thesis
    by (simp add: map_of_merge_repo_tags)
qed

lemma keys_merge_repo_tags: "fst ` set (merge_repo_tags E h) = fst ` set h \<union> fst ` set E"
proof -
  have "fst ` set (merge_repo_tags E h) = dom (map_of (merge_repo_tags E h))"
    by (simp add: dom_map_of_conv_image_fst)
  also have "\<dots> = fst ` set h \<union> fst ` set E"
    by (auto simp: dom_def map_of_merge_repo_tags)
  finally show ?thesis .
qed

lemma merge_repo_tags_commute:
  "map_of (merge_repo_tags (merge_repo_tags E h1) h2)
     = map_of (merge_repo_tags (merge_repo_tags E h2) h1)"
proof
  fix k
  show "map_of (merge_repo_tags (merge_repo_tags E h1) h2) k
     = map_of (merge_repo_tags (merge_repo_tags E h2) h1) k"
    unfolding map_of_merge_repo_tags [of "merge_repo_tags E h1" h2]
      map_of_merge_repo_tags [of "merge_repo_tags E h2" h1]
      set_terms_merge_repo_tags keys_merge_repo_tags
    by (auto simp: Un_ac)
qed

lemma merge_repo_tags_idem: "merge_repo_tags (merge_repo_tags E h) h = merge_repo_tags E h"
proof -
  let ?M = "add_hit_tags h (map (\<lambda>(k, v). (k, set v)) E)"
  let ?R = "merge_repo_tags E h"
  have fin: "\<forall>(k, s) \<in> set ?M. finite s"
    by (rule finite_add_hit_tags) auto
  have "\<forall>(k, v) \<in> set h. \<exists>s. map_of (map (\<lambda>(k, v). (k, set v)) ?R) k = Some s \<and> v \<in> s"
  proof clarify
    fix k v assume kv: "(k, v) \<in> set h"
    then have "k \<in> fst ` set h" by force
    with kv show "\<exists>s. map_of (map (\<lambda>(k, v). (k, set v)) ?R) k = Some s \<and> v \<in> s"
      by (simp add: map_of_map map_of_merge_repo_tags finite_incoming finite_existing)
  qed
  then have "add_hit_tags h (map (\<lambda>(k, v). (k, set v)) ?R) = map (\<lambda>(k, v). (k, set v)) ?R"
    by (rule add_hit_tags_absorb)
  then have "merge_repo_tags ?R h
      = map (\<lambda>(k, vs). (k, sorted_list_of_set vs)) (map (\<lambda>(k, v). (k, set v)) ?R)"
    by (simp add: merge_repo_tags_def)
  also have "\<dots> = ?R"
    unfolding merge_repo_tags_def using fin
    by (induction ?M) auto
  finally show ?thesis .
qed


lemma incoming_distinct:
  "distinct (map fst h) \<Longrightarrow> {v. (k, v) \<in> set h} = set_option (map_of h k)"
  by (auto simp: map_of_eq_None_iff [symmetric] simp del: map_of_eq_None_iff
      dest: map_of_SomeD)

lemma merge_repo_tags_per_category:
  assumes "distinct (map fst h)"
  shows "map_of (merge_repo_tags E h) k =
     (case (map_of E k, map_of h k) of
        (None, None) \<Rightarrow> None
      | (Some vs, None) \<Rightarrow> Some (sorted_list_of_set (set vs))
      | (None, Some v) \<Rightarrow> Some [v]
      | (Some vs, Some v) \<Rightarrow> Some (sorted_list_of_set (set vs \<union> {v})))"
  unfolding map_of_merge_repo_tags incoming_distinct [OF assms]
  by (auto simp: map_of_eq_None_iff [symmetric] simp del: map_of_eq_None_iff split: option.splits)

text \<open>
  Claim C4. \<open>merge_repo_tags\<close> is idempotent (merging the same hit tags a second time
  returns the very same dict, key order included) and order-independent (merging \<open>h1\<close> then
  \<open>h2\<close> and merging \<open>h2\<close> then \<open>h1\<close> give dicts with the same entries; Python compares
  dicts as mappings, whatever the insertion order). Per category the result is the sorted,
  duplicate-free union of the existing terms and the incoming term; \<open>hit_tags\<close> is a dict, so
  its keys are distinct.
\<close>

theorem merge_repo_tags_idempotent_order_independent:
  "merge_repo_tags (merge_repo_tags E h) h = merge_repo_tags E h
   \<and> map_of (merge_repo_tags (merge_repo_tags E h1) h2)
       = map_of (merge_repo_tags (merge_repo_tags E h2) h1)
   \<and> (distinct (map fst h) \<longrightarrow>
        map_of (merge_repo_tags E h) k =
          (case (map_of E k, map_of h k) of
             (None, None) \<Rightarrow> None
           | (Some vs, None) \<Rightarrow> Some (sorted_list_of_set (set vs))
           | (None, Some v) \<Rightarrow> Some [v]
           | (Some vs, Some v) \<Rightarrow> Some (sorted_list_of_set (set vs \<union> {v}))))"
  using merge_repo_tags_idem [of E h] merge_repo_tags_commute [of E h1 h2]
    merge_repo_tags_per_category [of h E k]
  by blast

theorem merge_repo_tags_idempotent_order_independent_witness:
  "map_of (merge_repo_tags [(''domain'', [''fluid'', ''cfd''])] [(''domain'', ''cfd''), (''method'', ''fem'')])
     ''domain'' = Some [''cfd'', ''fluid'']
   \<and> merge_repo_tags
        (merge_repo_tags [(''domain'', [''fluid'', ''cfd''])] [(''domain'', ''cfd''), (''method'', ''fem'')])
        [(''domain'', ''cfd''), (''method'', ''fem'')]
      = [(''domain'', [''cfd'', ''fluid'']), (''method'', [''fem''])]"
proof -
  let ?E = "[(''domain'', [''fluid'', ''cfd''])]"
  let ?h = "[(''domain'', ''cfd''), (''method'', ''fem'')]"
  have d: "distinct (map fst ?h)" by simp
  have s: "sorted_list_of_set (set [''fluid'', ''cfd''] \<union> {''cfd''}) = [''cfd'', ''fluid'']"
    by code_simp
  have m: "merge_repo_tags ?E ?h = [(''domain'', [''cfd'', ''fluid'']), (''method'', [''fem''])]"
    by code_simp
  from merge_repo_tags_idempotent_order_independent [of ?E ?h ?h ?h "''domain''"] d
  have "map_of (merge_repo_tags ?E ?h) ''domain''
          = Some (sorted_list_of_set (set [''fluid'', ''cfd''] \<union> {''cfd''}))"
    and "merge_repo_tags (merge_repo_tags ?E ?h) ?h = merge_repo_tags ?E ?h"
    by simp_all
  then show ?thesis by (simp only: s m)
qed

subsection \<open>Weighted pick\<close>




lemma rng_choice_reaches_every_row:
  assumes "i < length rows" and "g 0 = real i / real (length rows)"
  shows "rng_choice rows g = Inr (rows ! i, \<lambda>n. g (Suc n)) \<and> 0 \<le> g 0 \<and> g 0 < 1"
  using assms by (auto simp: rng_choice_def)




subsection \<open>Look-ups in a table\<close>

lemma find_distinct_key:
  "distinct (map f xs) \<Longrightarrow> x \<in> set xs \<Longrightarrow> find (\<lambda>y. f y = f x) xs = Some x"
  by (induction xs) (auto simp: image_iff)

lemma find_map_same_key:
  "(\<And>x. P (f x) = P x) \<Longrightarrow> find P (map f xs) = map_option f (find P xs)"
  by (induction xs) auto

lemma load_json_simps [simp]: "load_json (Some v) d = v" "load_json None d = d"
  by (simp_all add: load_json_def)

lemma find_Some_holds: "find P xs = Some x \<Longrightarrow> P x"
  by (induction xs) (auto split: if_splits)

lemma find_snoc:
  "find P (xs @ [y]) = (case find P xs of Some x \<Rightarrow> Some x | None \<Rightarrow> if P y then Some y else None)"
  by (induction xs) auto

lemma find_same_key_eq:
  "find (\<lambda>r. f r = k) xs = Some a \<Longrightarrow> find (\<lambda>r. f r = k') xs = Some b \<Longrightarrow> f b = k \<Longrightarrow> a = b"
  using find_Some_holds [of "\<lambda>r. f r = k'" xs b] by simp

subsection \<open>The query cache\<close>

lemma db_insert_query_if_new_existing:
  assumes "r \<in> set (tbl_queries s)" and "distinct (map q_query (tbl_queries s))"
  shows "db_insert_query_if_new s (q_query r) rcp = Inr (s, q_id r)"
proof -
  from assms have "find (\<lambda>y. q_query y = q_query r) (tbl_queries s) = Some r"
    by (simp add: find_distinct_key)
  moreover from assms(1) have "q_query r \<in> q_query ` set (tbl_queries s)" by simp
  ultimately show ?thesis
    by (simp add: db_insert_query_if_new_def)
qed

text \<open>
  Claim C9. \<open>db_insert_query_if_new\<close> on a query string that a row of \<open>queries\<close> already
  holds (the string is UNIQUE in the table) returns the id of that row and leaves the
  database as it was: the row keeps its recipe, its \<open>executed_at\<close> and every other column.
\<close>

theorem db_insert_query_if_new_existing_row:
  "r \<in> set (tbl_queries s) \<Longrightarrow> distinct (map q_query (tbl_queries s)) \<Longrightarrow>
     db_insert_query_if_new s (q_query r) rcp = Inr (s, q_id r)"
  by (rule db_insert_query_if_new_existing)

theorem db_insert_query_if_new_existing_row_witness:
  "db_insert_query_if_new cached_db ''cfd fem solver''
      \<lparr>recipe_type = ''DI'', recipe_keywords = [], recipe_bait = None\<rparr> = Inr (cached_db, 7)"
  using db_insert_query_if_new_existing_row [of cached_query cached_db
      "\<lparr>recipe_type = ''DI'', recipe_keywords = [], recipe_bait = None\<rparr>"]
  by (simp add: cached_db_def cached_query_def)

subsection \<open>Repository upsert\<close>

lemma upsert_noop:
  "item_full_name repo_item = None \<or> item_full_name repo_item = Some [] \<Longrightarrow>
     db_upsert_repo_and_hit s now query_id repo_item hit_tags = s"
  by (auto simp: db_upsert_repo_and_hit_def)

lemma upsert_existing_row:
  assumes "item_full_name item = Some fnm" and "fnm \<noteq> []"
    and "find (\<lambda>r. r_full_name r = fnm) (tbl_repos s) = Some row"
  shows "tbl_repos (db_upsert_repo_and_hit s now qid item h) =
     map (\<lambda>r. if r_full_name r = fnm
               then r\<lparr>r_html_url := item_html_url item, r_api_url := item_url item,
                      r_description := item_description item, r_last_seen_at := Some now,
                      r_repo_json := Some item,
                      r_topics_json := Some (sorted_list_of_set
                         (set (load_json (r_topics_json row) []) \<union> set (incoming_topics_of item))),
                      r_merged_tags_json :=
                         Some (merge_repo_tags (load_json (r_merged_tags_json row) []) h)\<rparr>
               else r) (tbl_repos s)"
  using assms by (simp add: db_upsert_repo_and_hit_def Let_def)

lemma upsert_new_row:
  assumes "item_full_name item = Some fnm" and "fnm \<noteq> []"
    and "find (\<lambda>r. r_full_name r = fnm) (tbl_repos s) = None"
  shows "tbl_repos (db_upsert_repo_and_hit s now qid item h) =
     tbl_repos s @
       [\<lparr>r_full_name = fnm, r_html_url = item_html_url item, r_api_url = item_url item,
         r_description = item_description item, r_first_seen_at = Some now,
         r_last_seen_at = Some now, r_repo_json = Some item,
         r_topics_json = Some (incoming_topics_of item),
         r_merged_tags_json = Some (merge_repo_tags [] h)\<rparr>]"
  using assms by (simp add: db_upsert_repo_and_hit_def Let_def)

text \<open>
  Claim C10. When the item has no \<open>full_name\<close>, or an empty one, \<open>db_upsert_repo_and_hit\<close>
  returns the database unchanged: no row of \<open>repos\<close> is written and no row of \<open>repo_hits\<close>
  is appended, whatever the query id and the hit tags.
\<close>

theorem db_upsert_repo_and_hit_without_full_name:
  "item_full_name repo_item = None \<or> item_full_name repo_item = Some [] \<Longrightarrow>
     db_upsert_repo_and_hit s now query_id repo_item hit_tags = s"
  by (rule upsert_noop)

theorem db_upsert_repo_and_hit_without_full_name_witness:
  "db_upsert_repo_and_hit seed_db 5 1 (repo_a_b\<lparr>item_full_name := Some []\<rparr>) [(''domain'', ''cfd'')] = seed_db
   \<and> db_upsert_repo_and_hit seed_db 5 1 (repo_a_b\<lparr>item_full_name := None\<rparr>) [(''domain'', ''cfd'')] = seed_db"
  using db_upsert_repo_and_hit_without_full_name [of "repo_a_b\<lparr>item_full_name := Some []\<rparr>" seed_db 5 1 "[(''domain'', ''cfd'')]"]
   db_upsert_repo_and_hit_without_full_name [of "repo_a_b\<lparr>item_full_name := None\<rparr>" seed_db 5 1 "[(''domain'', ''cfd'')]"]
  by simp

lemma stored_topics_upsert:
  "stored_topics s fn \<subseteq> stored_topics (db_upsert_repo_and_hit s now qid item h) fn"
proof -
  consider (noop) "item_full_name item = None \<or> item_full_name item = Some []"
    | (new) fnm where "item_full_name item = Some fnm" "fnm \<noteq> []"
        "find (\<lambda>r. r_full_name r = fnm) (tbl_repos s) = None"
    | (old) fnm row where "item_full_name item = Some fnm" "fnm \<noteq> []"
        "find (\<lambda>r. r_full_name r = fnm) (tbl_repos s) = Some row"
    by (cases "item_full_name item") auto
  then show ?thesis
  proof cases
    case noop
    then show ?thesis by (simp add: upsert_noop)
  next
    case new
    show ?thesis
      unfolding stored_topics_def upsert_new_row [OF new] find_snoc
      by (simp split: option.splits)
  next
    case old
    show ?thesis
    proof (cases "find (\<lambda>r. r_full_name r = fn) (tbl_repos s)")
      case None
      then show ?thesis by (simp add: stored_topics_def)
    next
      case (Some r)
      have "r_full_name r = fnm \<Longrightarrow> r = row"
        using old(3) Some by (metis find_same_key_eq)
      with Some show ?thesis
        unfolding stored_topics_def upsert_existing_row [OF old]
        by (auto simp: find_map_same_key)
    qed
  qed
qed

lemma merged_terms_grow:
  "(case map_of E c of None \<Rightarrow> {} | Some ts \<Rightarrow> set ts)
     \<subseteq> (case map_of (merge_repo_tags E h) c of None \<Rightarrow> {} | Some ts \<Rightarrow> set ts)"
  unfolding set_terms_merge_repo_tags by simp

lemma stored_tags_upsert:
  "stored_tags s fn c \<subseteq> stored_tags (db_upsert_repo_and_hit s now qid item h) fn c"
proof -
  consider (noop) "item_full_name item = None \<or> item_full_name item = Some []"
    | (new) fnm where "item_full_name item = Some fnm" "fnm \<noteq> []"
        "find (\<lambda>r. r_full_name r = fnm) (tbl_repos s) = None"
    | (old) fnm row where "item_full_name item = Some fnm" "fnm \<noteq> []"
        "find (\<lambda>r. r_full_name r = fnm) (tbl_repos s) = Some row"
    by (cases "item_full_name item") auto
  then show ?thesis
  proof cases
    case noop
    then show ?thesis by (simp add: upsert_noop)
  next
    case new
    show ?thesis
      unfolding stored_tags_def upsert_new_row [OF new] find_snoc
      by (simp split: option.splits)
  next
    case old
    show ?thesis
    proof (cases "find (\<lambda>r. r_full_name r = fn) (tbl_repos s)")
      case None
      then show ?thesis by (simp add: stored_tags_def)
    next
      case (Some r)
      have "r_full_name r = fnm \<Longrightarrow> r = row"
        using old(3) Some by (metis find_same_key_eq)
      with Some merged_terms_grow [of "load_json (r_merged_tags_json row) []" c h] show ?thesis
        unfolding stored_tags_def upsert_existing_row [OF old]
        by (auto simp: find_map_same_key)
    qed
  qed
qed

lemma upsert_calls_monotone:
  "stored_topics s fn \<subseteq> stored_topics (upsert_calls s calls) fn
   \<and> stored_tags s fn c \<subseteq> stored_tags (upsert_calls s calls) fn c"
proof (induction calls arbitrary: s)
  case Nil
  then show ?case by simp
next
  case (Cons call calls)
  obtain now qid item h where call: "call = (now, qid, item, h)"
    by (cases call) auto
  let ?s = "db_upsert_repo_and_hit s now qid item h"
  have "stored_topics s fn \<subseteq> stored_topics ?s fn" "stored_tags s fn c \<subseteq> stored_tags ?s fn c"
    by (rule stored_topics_upsert, rule stored_tags_upsert)
  with Cons.IH [of ?s] show ?case
    unfolding call by auto
qed

text \<open>
  Claim C2. Over any finite sequence of \<open>db_upsert_repo_and_hit\<close> calls (those that target
  the repository and those that do not), the topic set stored for a repository and, for
  each category, its stored set of tag terms after the sequence contain the sets before it.
\<close>

theorem upsert_never_shrinks:
  "stored_topics s full_name \<subseteq> stored_topics (upsert_calls s calls) full_name
   \<and> stored_tags s full_name category \<subseteq> stored_tags (upsert_calls s calls) full_name category"
  by (rule upsert_calls_monotone)

theorem upsert_never_shrinks_witness:
  "stored_topics (upsert_calls seed_db [hd two_upserts]) ''a/b''
      \<subseteq> stored_topics (upsert_calls (upsert_calls seed_db [hd two_upserts]) (tl two_upserts)) ''a/b''
   \<and> stored_tags (upsert_calls seed_db [hd two_upserts]) ''a/b'' ''domain''
      \<subseteq> stored_tags (upsert_calls (upsert_calls seed_db [hd two_upserts]) (tl two_upserts)) ''a/b'' ''domain''
   \<and> stored_topics (upsert_calls seed_db [hd two_upserts]) ''a/b'' = {''cfd'', ''mesh''}
   \<and> stored_tags (upsert_calls seed_db [hd two_upserts]) ''a/b'' ''domain'' = {''cfd''}"
proof -
  have "stored_topics (upsert_calls seed_db [hd two_upserts]) ''a/b'' = {''cfd'', ''mesh''}"
    by code_simp
  moreover have "stored_tags (upsert_calls seed_db [hd two_upserts]) ''a/b'' ''domain'' = {''cfd''}"
    by code_simp
  ultimately show ?thesis
    using upsert_never_shrinks [of "upsert_calls seed_db [hd two_upserts]" "''a/b''"
        "tl two_upserts" "''domain''"]
    by simp
qed

subsection \<open>Candidate scoring\<close>


lemma candidate_row_of_add_other:
  assumes "k \<noteq> normalize_term t0"
  shows "candidate_row_of (db_add_candidate s now t0 field repo inc) k = candidate_row_of s k"
proof (cases "candidate_row_of s (normalize_term t0)")
  case None
  with assms show ?thesis
    by (simp add: db_add_candidate_def candidate_row_of_def Let_def find_snoc split: option.splits)
next
  case (Some row)
  with assms show ?thesis
    apply (simp add: db_add_candidate_def candidate_row_of_def Let_def find_map_same_key)
    apply (cases "find (\<lambda>r. cand_term r = k) (tbl_keyword_candidates s)")
     apply (auto dest: find_Some_holds)
    done
qed







subsection \<open>Normalised text\<close>

lemma is_upper_lower_char [simp]: "\<not> is_upper (lower_char c)"
  by (auto simp: is_upper_def lower_char_def Let_def)

lemma is_space_lower_char [simp]: "is_space (lower_char c) = is_space c"
  by (auto simp: is_upper_def is_space_def lower_char_def Let_def)

lemma lower_char_id: "\<not> is_upper c \<Longrightarrow> lower_char c = c"
  by (simp add: lower_char_def)

lemma lower_id: "\<forall>c \<in> set s. \<not> is_upper c \<Longrightarrow> lower s = s"
  by (induction s) (auto simp: lower_def lower_char_id)

lemma lower_lower [simp]: "lower (lower s) = lower s"
  by (rule lower_id) (auto simp: lower_def)

lemma lower_append: "lower (xs @ ys) = lower xs @ lower ys"
  by (simp add: lower_def)

lemma strip_sublist: "sublist (strip s) s"
proof -
  have "suffix (dropWhile is_space s) s" by (rule suffix_dropWhile)
  moreover have "prefix (strip s) (dropWhile is_space s)"
    unfolding strip_def
    by (metis suffix_dropWhile suffix_to_prefix rev_rev_ident)
  ultimately show ?thesis
    by (meson prefix_imp_sublist suffix_imp_sublist sublist_order.order_trans)
qed

lemma strip_ends:
  assumes "strip s \<noteq> []"
  shows "\<not> is_space (hd (strip s))" and "\<not> is_space (last (strip s))"
proof -
  let ?d = "dropWhile is_space s"
  let ?e = "dropWhile is_space (rev ?d)"
  from assms have e: "?e \<noteq> []" by (simp add: strip_def)
  then have "\<not> is_space (hd ?e)" by (rule hd_dropWhile)
  then show "\<not> is_space (last (strip s))"
    using e by (simp add: strip_def last_rev)
  from e have d: "?d \<noteq> []" by (cases "?d = []") simp_all
  then have nd: "\<not> is_space (hd ?d)" by (rule hd_dropWhile)
  have "suffix ?e (rev ?d)" by (rule suffix_dropWhile)
  then obtain zs where "rev ?d = zs @ ?e" by (auto simp: suffix_def)
  then have dd: "?d = rev ?e @ rev zs" by (metis rev_append rev_rev_ident)
  have "hd (rev ?e @ rev zs) = hd (rev ?e)" using e by (simp add: hd_append2)
  then have "hd ?d = hd (rev ?e)" by (subst dd)
  with nd show "\<not> is_space (hd (strip s))" by (simp add: strip_def)
qed

lemma strip_around:
  assumes "k \<noteq> []" and "\<not> is_space (hd k)" and "\<not> is_space (last k)"
  shows "\<exists>ps' ss'. strip (ps @ k @ ss) = ps' @ k @ ss'"
proof -
  from assms(1) obtain a k' where k: "k = a # k'" by (cases k) auto
  from assms(1) obtain k'' b where k2: "k = k'' @ [b]" by (cases k rule: rev_cases) auto
  from assms(2) k have "dropWhile is_space (ps @ k @ ss) = dropWhile is_space ps @ k @ ss"
    by (simp add: dropWhile_append3)
  moreover from assms(3) k2
  have "dropWhile is_space (rev (dropWhile is_space ps @ k @ ss))
          = dropWhile is_space (rev ss) @ rev k @ rev (dropWhile is_space ps)"
    by (simp add: dropWhile_append3)
  ultimately have "strip (ps @ k @ ss) = dropWhile is_space ps @ k @ rev (dropWhile is_space (rev ss))"
    by (simp add: strip_def)
  then show ?thesis by blast
qed

lemma normalize_term_ends:
  assumes "normalize_term x \<noteq> []"
  shows "\<not> is_space (hd (normalize_term x))" and "\<not> is_space (last (normalize_term x))"
proof -
  from assms have ne: "strip x \<noteq> []" by (auto simp: normalize_term_def lower_def)
  then show "\<not> is_space (hd (normalize_term x))"
    using strip_ends(1) [OF ne] by (simp add: normalize_term_def lower_def hd_map)
  from ne show "\<not> is_space (last (normalize_term x))"
    using strip_ends(2) [OF ne] by (simp add: normalize_term_def lower_def last_map)
qed

lemma normalize_term_no_upper: "c \<in> set (normalize_term x) \<Longrightarrow> \<not> is_upper c"
  by (auto simp: normalize_term_def lower_def)

text \<open>
  A normalised token that contains, or is contained in, a keyword term stands in the same
  relation to the normalised keyword term.
\<close>

lemma sublist_normalize_right:
  assumes "sublist k K" and "k = normalize_term x" and "k \<noteq> []"
  shows "sublist k (normalize_term K)"
proof -
  from assms(1) obtain ps ss where K: "K = ps @ k @ ss" by (auto simp: sublist_def)
  from assms(2,3) have "\<not> is_space (hd k)" "\<not> is_space (last k)"
    using normalize_term_ends [of x] by simp_all
  with assms(3) obtain ps' ss' where "strip (ps @ k @ ss) = ps' @ k @ ss'"
    using strip_around by blast
  moreover have "lower k = k"
    using assms(2) by (simp add: normalize_term_def)
  ultimately have "normalize_term K = lower ps' @ k @ lower ss'"
    by (simp add: normalize_term_def K lower_append)
  then show ?thesis by simp
qed

lemma sublist_normalize_left:
  assumes "sublist K k" and "k = normalize_term x"
  shows "sublist (normalize_term K) k"
proof -
  have "sublist (strip K) K" by (rule strip_sublist)
  from this assms(1) have s: "sublist (strip K) k"
    by (rule sublist_order.order_trans)
  then have "set (strip K) \<subseteq> set k" by (rule set_mono_sublist)
  with assms(2) have "\<forall>c \<in> set (strip K). \<not> is_upper c"
    using normalize_term_no_upper by blast
  then have "lower (strip K) = strip K" by (rule lower_id)
  with s show ?thesis by (simp add: normalize_term_def)
qed

lemma normalize_term_Nil [simp]: "normalize_term [] = []"
  by (simp add: normalize_term_def lower_def strip_def)

subsection \<open>Candidate extraction\<close>

lemma scan_description_terms_skips:
  assumes "\<And>t. normalize_term t = k \<Longrightarrow> should_skip_candidate_term t kws"
  shows "candidate_row_of (fst (scan_description_terms clock kws fn ts st)) k = candidate_row_of (fst st) k"
proof (induction ts arbitrary: st)
  case Nil
  then show ?case by simp
next
  case (Cons t ts)
  obtain s n where st: "st = (s, n)" by (cases st)
  show ?case
  proof (cases "t \<in> STOPWORDS \<or> should_skip_candidate_term t kws")
    case True
    then show ?thesis using Cons.IH [of "(s, n)"] by (auto simp: st)
  next
    case False
    with assms have "k \<noteq> normalize_term t" by blast
    then have "candidate_row_of (db_add_candidate s (clock n) t ''description'' fn 0.3) k
        = candidate_row_of s k"
      by (rule candidate_row_of_add_other)
    with False show ?thesis
      using Cons.IH [of "(db_add_candidate s (clock n) t ''description'' fn 0.3, Suc n)"]
      by (simp add: st)
  qed
qed

lemma scan_topics_skips:
  assumes "\<And>t. normalize_term t = k \<Longrightarrow> should_skip_candidate_term t kws"
  shows "candidate_row_of (fst (scan_topics clock kws fn ts st)) k = candidate_row_of (fst st) k"
proof (induction ts arbitrary: st)
  case Nil
  then show ?case by simp
next
  case (Cons topic ts)
  obtain s n where st: "st = (s, n)" by (cases st)
  let ?t = "normalize_term topic"
  show ?case
  proof (cases "?t = [] \<or> ?t \<in> STOPWORDS \<or> should_skip_candidate_term ?t kws")
    case True
    then show ?thesis using Cons.IH [of "(s, n)"] by (auto simp: st Let_def)
  next
    case False
    with assms have "k \<noteq> normalize_term ?t" by blast
    then have "candidate_row_of (db_add_candidate s (clock n) ?t ''topic'' fn 1.0) k
        = candidate_row_of s k"
      by (rule candidate_row_of_add_other)
    with False show ?thesis
      using Cons.IH [of "(db_add_candidate s (clock n) ?t ''topic'' fn 1.0, Suc n)"]
      by (simp add: st Let_def)
  qed
qed

lemma scan_repos_skips:
  assumes "\<And>t. normalize_term t = k \<Longrightarrow> should_skip_candidate_term t kws"
  shows "candidate_row_of (fst (scan_repos clock kws rows st)) k = candidate_row_of (fst st) k"
proof (induction rows arbitrary: st)
  case Nil
  then show ?case by simp
next
  case (Cons row rows)
  have "candidate_row_of (fst (scan_repo clock kws row st)) k = candidate_row_of (fst st) k"
    using assms by (simp add: scan_repo_def Let_def scan_topics_skips scan_description_terms_skips)
  with Cons.IH [of "scan_repo clock kws row st"] show ?case by simp
qed

lemma related_keyword_skips:
  assumes r: "r \<in> set (tbl_keywords s)" and ne: "normalize_term (kw_term r) \<noteq> []"
    and rel: "sublist (normalize_term x) (kw_term r) \<or> sublist (kw_term r) (normalize_term x)"
  shows "should_skip_candidate_term x (existing_keyword_terms_of s)"
proof (cases "normalize_term x = []")
  case True
  then show ?thesis by (simp add: should_skip_candidate_term_def)
next
  case False
  from ne have "kw_term r \<noteq> []" by auto
  with r have mem: "normalize_term (kw_term r) \<in> existing_keyword_terms_of s"
    by (auto simp: existing_keyword_terms_of_def)
  from rel False
  have "sublist (normalize_term x) (normalize_term (kw_term r))
      \<or> sublist (normalize_term (kw_term r)) (normalize_term x)"
    using sublist_normalize_right [of "normalize_term x" "kw_term r" x]
      sublist_normalize_left [of "kw_term r" "normalize_term x" x] by blast
  with mem ne show ?thesis
    by (auto simp: should_skip_candidate_term_def Let_def)
qed

text \<open>
  The claim C8 as it is written fails for a keyword whose term is empty: every token
  contains the empty string, yet the extraction drops empty keyword terms (\<open>if r[0]\<close>,
  \<open>if not kw: continue\<close>) and records the token.
\<close>

theorem empty_keyword_counterexample:
  "blank_keyword \<in> set (tbl_keywords blank_keyword_db)
   \<and> kw_status blank_keyword = ''active''
   \<and> sublist (kw_term blank_keyword) ''mesh''
   \<and> candidate_row_of blank_keyword_db ''mesh'' = None
   \<and> map_option cand_occurrences
        (candidate_row_of (run_extract_candidates blank_keyword_db (\<lambda>n. n) 10) ''mesh'') = Some 2"
proof -
  have "map_option cand_occurrences
        (candidate_row_of (run_extract_candidates blank_keyword_db (\<lambda>n. n) 10) ''mesh'') = Some 2"
    by code_simp
  moreover have "candidate_row_of blank_keyword_db ''mesh'' = None"
    by code_simp
  ultimately show ?thesis
    by (simp add: blank_keyword_db_def blank_keyword_def)
qed

text \<open>
  Claim C8, amended. For every active keyword whose term is not blank (not empty once
  trimmed), a token that equals the term, is a substring of it or contains it is skipped by
  the extraction: the candidate row of that token is the same after the run as before, and
  missing after the run when it was missing before. (The extraction reads every keyword,
  active or not, so the status plays no part in the proof.)
\<close>

theorem related_tokens_never_recorded:
  assumes "r \<in> set (tbl_keywords s)" and "kw_status r = ''active''"
    and "normalize_term (kw_term r) \<noteq> []"
    and "t = kw_term r \<or> sublist t (kw_term r) \<or> sublist (kw_term r) t"
  shows "candidate_row_of (run_extract_candidates s clock limit_repos) t = candidate_row_of s t"
proof -
  have "should_skip_candidate_term x (existing_keyword_terms_of s)" if "normalize_term x = t" for x
    using related_keyword_skips [OF assms(1,3), of x] assms(4) that by auto
  then show ?thesis
    unfolding run_extract_candidates_def by (simp add: scan_repos_skips)
qed

theorem related_tokens_never_recorded_witness:
  "candidate_row_of (run_extract_candidates harvested_db (\<lambda>n. n) 10) ''cfd'' = None
   \<and> candidate_row_of (run_extract_candidates harvested_db (\<lambda>n. n) 10) ''cf'' = None
   \<and> map_option cand_score
        (candidate_row_of (run_extract_candidates harvested_db (\<lambda>n. n) 10) ''mesh'') = Some 1.3"
proof -
  let ?r = "hd (tbl_keywords harvested_db)"
  have r: "?r \<in> set (tbl_keywords harvested_db)" "kw_status ?r = ''active''"
    "normalize_term (kw_term ?r) \<noteq> []" "kw_term ?r = ''cfd''"
    by code_simp+
  have s: "sublist ''cf'' ''cfd''" by code_simp
  have n: "candidate_row_of harvested_db ''cfd'' = None" "candidate_row_of harvested_db ''cf'' = None"
    by code_simp+
  have m: "map_option cand_score
        (candidate_row_of (run_extract_candidates harvested_db (\<lambda>n. n) 10) ''mesh'') = Some 1.3"
    by code_simp
  from related_tokens_never_recorded [OF r(1,2,3), of "''cfd''" "\<lambda>n. n" 10]
    related_tokens_never_recorded [OF r(1,2,3), of "''cf''" "\<lambda>n. n" 10]
  show ?thesis using r(4) s n m by simp
qed

subsection \<open>The harvest loop\<close>

lemma range_from_one: "1 \<le> n \<Longrightarrow> [1..n] = 1 # [2..n]"
  by (simp add: upto_rec1)

lemma cached_query_skipped:
  assumes draw: "make_random_query (h_db st) (h_rng st) = Inr ((query0, hit_tags, rcp), g')"
    and flt: "apply_repo_filters_to_query query0 (filters P) = Inr (q_query r)"
    and row: "r \<in> set (tbl_queries (h_db st))" and exec: "q_executed_at r \<noteq> None"
    and uq: "distinct (map q_query (tbl_queries (h_db st)))"
    and pk: "distinct (map q_id (tbl_queries (h_db st)))"
  shows "harvest_body P clock api st = (st\<lparr>attempts := attempts st + 1, h_rng := g'\<rparr>, None)"
proof -
  have ins: "db_insert_query_if_new (h_db st) (q_query r) rcp = Inr (h_db st, q_id r)"
    using row uq by (rule db_insert_query_if_new_existing)
  have "find (\<lambda>y. q_id y = q_id r) (tbl_queries (h_db st)) = Some r"
    using pk row by (rule find_distinct_key)
  with exec have "db_query_is_executed (h_db st) (q_id r)"
    by (simp add: db_query_is_executed_def)
  with draw flt ins show ?thesis
    by (simp add: harvest_body_def)
qed

text \<open>
  Claim C3. In an iteration of the \<open>run_harvest\<close> loop whose drawn query string (qualifiers
  applied) is held by a row of \<open>queries\<close> with \<open>executed_at\<close> set, \<open>attempts\<close> grows by one and
  nothing else happens: no search request is issued, the database and \<open>executed_steps\<close> are
  as before, and the loop goes on. The table constraints are assumed: \<open>query\<close> is UNIQUE and
  \<open>id\<close> is the primary key.
\<close>

theorem cached_query_counts_as_attempt_only:
  assumes "make_random_query (h_db st) (h_rng st) = Inr ((query0, hit_tags, rcp), g')"
    and "apply_repo_filters_to_query query0 (filters P) = Inr (q_query r)"
    and "r \<in> set (tbl_queries (h_db st))" and "q_executed_at r \<noteq> None"
    and "distinct (map q_query (tbl_queries (h_db st)))"
    and "distinct (map q_id (tbl_queries (h_db st)))"
  shows "\<exists>st'. harvest_body P clock api st = (st', None)
     \<and> attempts st' = attempts st + 1
     \<and> h_requests st' = h_requests st
     \<and> h_db st' = h_db st
     \<and> executed_steps st' = executed_steps st"
  using cached_query_skipped [OF assms] by simp

theorem cached_query_counts_as_attempt_only_witness:
  "\<exists>st'. harvest_body one_step (\<lambda>n. 1000 + n) forbidden_api (start_state cached_db) = (st', None)
     \<and> attempts st' = 1 \<and> h_requests st' = [] \<and> h_db st' = cached_db \<and> executed_steps st' = 0"
proof -
  let ?st = "start_state cached_db"
  let ?rcp = "\<lparr>recipe_type = ''DMI'',
        recipe_keywords = [(1, ''domain'', ''cfd''), (2, ''method'', ''fem''), (3, ''intent'', ''solver'')],
        recipe_bait = None\<rparr>"
  have "make_random_query (h_db ?st) (h_rng ?st)
      = Inr ((''cfd fem solver'', [(''domain'', ''cfd''), (''intent'', ''solver''), (''method'', ''fem'')], ?rcp),
             \<lambda>n. 1/10)"
    by (simp add: make_random_query_def db_get_active_keywords_def start_state_def cached_db_def
        seed_db_def weighted_choice_def pick_def rng_random_def compose_query_def keyword_ref_def)
  moreover have "apply_repo_filters_to_query ''cfd fem solver'' (filters one_step) = Inr (q_query cached_query)"
    by (simp add: apply_repo_filters_to_query_def one_step_def no_filters_def cached_query_def)
  moreover have "cached_query \<in> set (tbl_queries (h_db ?st))" "q_executed_at cached_query \<noteq> None"
    "distinct (map q_query (tbl_queries (h_db ?st)))" "distinct (map q_id (tbl_queries (h_db ?st)))"
    by (simp_all add: start_state_def cached_db_def cached_query_def)
  ultimately show ?thesis
    using cached_query_counts_as_attempt_only [of ?st "''cfd fem solver''" _ ?rcp "\<lambda>n. 1/10"
        one_step cached_query "\<lambda>n. 1000 + n" forbidden_api]
    by (simp add: start_state_def)
qed

lemma failed_first_page:
  assumes draw: "make_random_query (h_db st) (h_rng st) = Inr ((query0, hit_tags, rcp), g')"
    and flt: "apply_repo_filters_to_query query0 (filters P) = Inr query"
    and ins: "db_insert_query_if_new (h_db st) query rcp = Inr (s', qid)"
    and new: "\<not> db_query_is_executed s' qid"
    and pages: "1 \<le> pages_per_query P"
    and resp: "api (length (h_requests st))
                 \<lparr>rq_query = query, rq_per_page = per_page P, rq_page = 1,
                  rq_sort = sort_by P, rq_order = order_by P\<rparr> = Inr resp"
    and status: "resp_status_code resp \<noteq> 200"
  shows "harvest_body P clock api st =
     (st\<lparr>attempts := attempts st + 1,
         h_db := db_mark_query_executed
                   (db_mark_query_executed s' (clock (h_clock_reads st)) qid (resp_status_code resp)
                      None (Some (take 5000 (resp_text resp))))
                   (clock (Suc (h_clock_reads st))) qid 200 None None,
         h_rng := g',
         h_clock_reads := Suc (Suc (h_clock_reads st)),
         h_requests := h_requests st @
            [\<lparr>rq_query = query, rq_per_page = per_page P, rq_page = 1,
              rq_sort = sort_by P, rq_order = order_by P\<rparr>],
         executed_steps := executed_steps st + 1\<rparr>, None)"
  using draw flt ins new resp status
  by (simp add: harvest_body_def range_from_one [OF pages] Let_def)

text \<open>
  Claim C1 asks that a query whose first page comes back with a status other than 200 ends
  with that status in \<open>last_status\<close> and a prefix of the body in \<open>last_error\<close>. The code
  records both, leaves the paging loop by \<open>break\<close>, and then runs the statement after the
  loop, \<open>db_mark_query_executed(conn, qid, 200, total_count, None)\<close>, which overwrites them.
  What the code does: the row of the query ends with \<open>executed_at\<close> set, \<open>last_status = 200\<close>,
  no total count and no error; no repository is written; \<open>executed_steps\<close> grows by one.
\<close>

theorem failed_first_page_ends_as_success:
  assumes "make_random_query (h_db st) (h_rng st) = Inr ((query0, hit_tags, rcp), g')"
    and "apply_repo_filters_to_query query0 (filters P) = Inr query"
    and "db_insert_query_if_new (h_db st) query rcp = Inr (s', qid)"
    and "\<not> db_query_is_executed s' qid"
    and "1 \<le> pages_per_query P"
    and "api (length (h_requests st))
           \<lparr>rq_query = query, rq_per_page = per_page P, rq_page = 1,
            rq_sort = sort_by P, rq_order = order_by P\<rparr> = Inr resp"
    and "resp_status_code resp \<noteq> 200"
  shows "\<exists>st'. harvest_body P clock api st = (st', None)
     \<and> tbl_queries (h_db st') =
         map (\<lambda>r. if q_id r = qid
                   then r\<lparr>q_executed_at := Some (clock (Suc (h_clock_reads st))),
                          q_last_status := Some 200,
                          q_last_total_count := None,
                          q_last_error := None\<rparr>
                   else r) (tbl_queries s')
     \<and> tbl_repos (h_db st') = tbl_repos s'
     \<and> executed_steps st' = executed_steps st + 1"
proof -
  note run = failed_first_page [of st query0 hit_tags rcp g' P query s' qid api resp clock,
      OF assms]
  show ?thesis
    unfolding run by (simp add: db_mark_query_executed_def comp_def cong: if_cong)
qed

theorem failed_first_page_ends_as_success_witness:
  "\<exists>st'. harvest_body one_step (\<lambda>n. 1000 + n) forbidden_api (start_state seed_db) = (st', None)
     \<and> map (\<lambda>r. (q_query r, q_executed_at r, q_last_status r, q_last_total_count r, q_last_error r))
          (tbl_queries (h_db st'))
        = [(''cfd fem solver'', Some 1001, Some 200, None, None)]
     \<and> tbl_repos (h_db st') = []
     \<and> executed_steps st' = 1"
proof -
  let ?st = "start_state seed_db"
  let ?rcp = "\<lparr>recipe_type = ''DMI'',
        recipe_keywords = [(1, ''domain'', ''cfd''), (2, ''method'', ''fem''), (3, ''intent'', ''solver'')],
        recipe_bait = None\<rparr>"
  let ?row = "\<lparr>q_id = 1, q_query = ''cfd fem solver'', q_recipe_json = ?rcp,
        q_executed_at = None, q_last_status = None, q_last_total_count = None, q_last_error = None\<rparr>"
  let ?s1 = "seed_db\<lparr>tbl_queries := [?row], queries_seq := 1\<rparr>"
  let ?resp = "\<lparr>resp_status_code = 403, resp_text = ''API rate limit exceeded'',
        resp_json = Inl ''JSONDecodeError''\<rparr>"
  have draw: "make_random_query (h_db ?st) (h_rng ?st)
      = Inr ((''cfd fem solver'', [(''domain'', ''cfd''), (''intent'', ''solver''), (''method'', ''fem'')], ?rcp),
             \<lambda>n. 1/10)"
    by (simp add: make_random_query_def db_get_active_keywords_def start_state_def
        seed_db_def weighted_choice_def pick_def rng_random_def compose_query_def keyword_ref_def)
  have flt: "apply_repo_filters_to_query ''cfd fem solver'' (filters one_step) = Inr ''cfd fem solver''"
    by (simp add: apply_repo_filters_to_query_def one_step_def no_filters_def)
  have ins: "db_insert_query_if_new (h_db ?st) ''cfd fem solver'' ?rcp = Inr (?s1, 1)"
    by (simp add: db_insert_query_if_new_def next_query_id_def start_state_def seed_db_def)
  have new: "\<not> db_query_is_executed ?s1 1"
    by (simp add: db_query_is_executed_def)
  have pages: "1 \<le> pages_per_query one_step"
    by (simp add: one_step_def)
  have resp: "forbidden_api (length (h_requests ?st))
       \<lparr>rq_query = ''cfd fem solver'', rq_per_page = per_page one_step, rq_page = 1,
        rq_sort = sort_by one_step, rq_order = order_by one_step\<rparr> = Inr ?resp"
    by (simp add: forbidden_api_def)
  have status: "resp_status_code ?resp \<noteq> 200"
    by simp
  from failed_first_page_ends_as_success [of ?st "''cfd fem solver''"
      "[(''domain'', ''cfd''), (''intent'', ''solver''), (''method'', ''fem'')]" ?rcp "\<lambda>n. 1/10"
      one_step "''cfd fem solver''" ?s1 1 forbidden_api ?resp "\<lambda>n. 1000 + n",
      OF draw flt ins new pages resp status]
  show ?thesis
    by (auto simp: start_state_def seed_db_def)
qed

end
